theory Spec2Isabelle
  imports Main "HOL-Library.AList"
begin

section \<open>Frontend action helpers (cc-webapp/frontend/utils/actions.ts)\<close>

subsection \<open>JavaScript values and \<open>JSON.stringify\<close>\<close>

text \<open>
  The values the helpers serialise: \<open>undefined\<close>, \<open>null\<close>, booleans, numbers, strings,
  arrays and plain objects (a property list in insertion order). Numbers stand for the
  identifiers and prices the payload types carry and are integers here.

  \<open>JSON.stringify\<close> is modelled up to the JSON document it denotes: a property whose value
  is \<open>undefined\<close> is left out of an object, an \<open>undefined\<close> array element becomes
  \<open>null\<close>, and \<open>undefined\<close> itself has no JSON text (the call returns \<open>undefined\<close>,
  here \<open>None\<close>).
\<close>

datatype js = JUndefined | JNull | JBool bool | JNumber int | JString string
  | JArray "js list" | JObject "(string \<times> js) list"

datatype json = Null | Bool bool | Number int | String string
  | Array "json list" | Object "(string \<times> json) list"

primrec JSON_stringify :: "js \<Rightarrow> json option" where
  "JSON_stringify JUndefined = None"
| "JSON_stringify JNull = Some Null"
| "JSON_stringify (JBool b) = Some (Bool b)"
| "JSON_stringify (JNumber n) = Some (Number n)"
| "JSON_stringify (JString s) = Some (String s)"
| "JSON_stringify (JArray xs) =
     Some (Array (map (\<lambda>v. case v of None \<Rightarrow> Null | Some j \<Rightarrow> j) (map JSON_stringify xs)))"
| "JSON_stringify (JObject kvs) =
     Some (Object (List.map_filter (\<lambda>(k, v). map_option (Pair k) v)
        (map (map_prod id JSON_stringify) kvs)))"

subsection \<open>\<open>apiRequest\<close>\<close>

text \<open>
  \<open>apiRequest\<close> comes from \<open>./api\<close>, which is not among the sources, so every helper
  takes it as a parameter. A call receives the path and the request options, runs against
  the outside world (network and server, the state \<open>'w\<close>), and either throws (\<open>Inl\<close>)
  or resolves to a response (\<open>Inr\<close>); either way the world may have changed.
  Of the request options the helpers set \<open>method\<close> and \<open>body\<close>; \<open>method\<close> is a
  reserved word of the theory language, so the field is \<open>method'\<close>.
\<close>

record RequestInit =
  method' :: string
  body :: "json option"

type_synonym ('e, 'r, 'w) apiRequest =
  "string \<Rightarrow> RequestInit \<Rightarrow> 'w \<Rightarrow> ('e + 'r) \<times> 'w"

subsection \<open>\<open>postAction\<close> and \<open>postActionsBatch\<close>\<close>

text \<open>\<open>context\<close> is a reserved word of the theory language; the field is \<open>context'\<close>.\<close>

record ActionPayload =
  user_id :: int
  action_type :: string
  context' :: "(string \<times> js) list option"

definition ActionPayload_js :: "ActionPayload \<Rightarrow> js" where
  "ActionPayload_js p =
     JObject [(''user_id'', JNumber (ActionPayload.user_id p)),
              (''action_type'', JString (action_type p)),
              (''context'', case context' p of None \<Rightarrow> JUndefined | Some c \<Rightarrow> JObject c)]"

definition postAction :: "('e, 'r, 'w) apiRequest \<Rightarrow> ActionPayload \<Rightarrow> 'w \<Rightarrow> ('e + 'r) \<times> 'w" where
  "postAction apiRequest payload w =
     apiRequest ''/api/actions''
       \<lparr>method' = ''POST'', body = JSON_stringify (ActionPayload_js payload)\<rparr> w"

text \<open>
  The fallback loop \<open>for (const p of payloads) results.push(await postAction(p))\<close>: the
  posts run one after the other, each on the world the previous one left, and the first
  one that throws ends the loop with its error.
\<close>

fun post_each ::
  "('e, 'r, 'w) apiRequest \<Rightarrow> ActionPayload list \<Rightarrow> 'r list \<Rightarrow> 'w \<Rightarrow> ('e + 'r list) \<times> 'w" where
  "post_each apiRequest [] results w = (Inr results, w)"
| "post_each apiRequest (p # ps) results w =
     (case postAction apiRequest p w of
        (Inl e, w') \<Rightarrow> (Inl e, w')
      | (Inr r, w') \<Rightarrow> post_each apiRequest ps (results @ [r]) w')"

text \<open>What \<open>postActionsBatch\<close> resolves to: the bulk response, or \<open>{ logged: n }\<close>.\<close>

datatype 'r BatchResult = BulkResponse 'r | Logged nat

definition bulk_request :: "ActionPayload list \<Rightarrow> RequestInit" where
  "bulk_request payloads =
     \<lparr>method' = ''POST'',
      body = JSON_stringify (JObject [(''items'', JArray (map ActionPayload_js payloads))])\<rparr>"

definition postActionsBatch ::
  "('e, 'r, 'w) apiRequest \<Rightarrow> ActionPayload list \<Rightarrow> 'w \<Rightarrow> ('e + 'r BatchResult) \<times> 'w" where
  "postActionsBatch apiRequest payloads w =
     (case apiRequest ''/api/actions/bulk'' (bulk_request payloads) w of
        (Inr r, w1) \<Rightarrow> (Inr (BulkResponse r), w1)
      | (Inl err, w1) \<Rightarrow>
          (case post_each apiRequest payloads [] w1 of
             (Inr results, w2) \<Rightarrow> (Inr (Logged (length results)), w2)
           | (Inl _, w2) \<Rightarrow> (Inl err, w2)))"

subsection \<open>\<open>buyProduct\<close>\<close>

record ShopBuyPayload =
  user_id :: int
  product_id :: string
  amount :: int
  quantity :: "int option"
  metadata :: "(string \<times> js) list option"

text \<open>The parameter type \<open>ShopBuyPayload & { idempotency_key?: string }\<close>.\<close>

record BuyPayload = ShopBuyPayload +
  idempotency_key :: "string option"

text \<open>
  \<open>payload.idempotency_key || undefined\<close>: of the values the type admits, \<open>undefined\<close>
  and the empty string are falsy, every other string is kept.
\<close>

definition or_undefined :: "string option \<Rightarrow> js" where
  "or_undefined k =
     (case k of None \<Rightarrow> JUndefined | Some s \<Rightarrow> if s = [] then JUndefined else JString s)"

definition buyProduct :: "('e, 'r, 'w) apiRequest \<Rightarrow> BuyPayload \<Rightarrow> 'w \<Rightarrow> ('e + 'r) \<times> 'w" where
  "buyProduct apiRequest payload w =
     (let product_id = product_id payload;
          body = JObject [(''product_id'', JString product_id),
                          (''idempotency_key'', or_undefined (idempotency_key payload))]
      in apiRequest ''/api/shop/purchase'' \<lparr>method' = ''POST'', body = JSON_stringify body\<rparr> w)"

subsection \<open>Observing the requests a helper sends\<close>

text \<open>
  \<open>traced\<close> wraps any \<open>apiRequest\<close> so that the world also keeps the list of requests made
  so far, in order. \<open>offline\<close> is a server that is never reached: it throws on every call
  and counts them. \<open>bulk_down\<close> has no bulk endpoint but accepts single posts, answering
  each with its running number. \<open>flaky\<close> is \<open>bulk_down\<close> except that its second
  single post fails. \<open>click\<close>, \<open>spin\<close> and \<open>gem_pack\<close> are sample payloads.
\<close>

definition traced ::
  "('e, 'r, 'w) apiRequest \<Rightarrow> ('e, 'r, 'w \<times> (string \<times> RequestInit) list) apiRequest" where
  "traced apiRequest path init ws =
     (case apiRequest path init (fst ws) of
        (res, w') \<Rightarrow> (res, (w', snd ws @ [(path, init)])))"

definition action_request :: "ActionPayload \<Rightarrow> string \<times> RequestInit" where
  "action_request p =
     (''/api/actions'', \<lparr>method' = ''POST'', body = JSON_stringify (ActionPayload_js p)\<rparr>)"

definition offline :: "(string, unit, nat) apiRequest" where
  "offline path init n = (Inl (''network error: '' @ path), Suc n)"

definition bulk_down :: "(string, nat, nat) apiRequest" where
  "bulk_down path init n =
     (if path = ''/api/actions/bulk'' then (Inl ''404 Not Found'', n) else (Inr n, Suc n))"

definition flaky :: "(string, nat, nat) apiRequest" where
  "flaky path init n =
     (if path = ''/api/actions/bulk'' then (Inl ''404 Not Found'', n)
      else if n = 1 then (Inl ''500 Internal Server Error'', Suc n)
      else (Inr n, Suc n))"

definition click :: ActionPayload where
  "click = \<lparr>ActionPayload.user_id = 7, action_type = ''CLICK'', context' = None\<rparr>"

definition spin :: ActionPayload where
  "spin = \<lparr>ActionPayload.user_id = 7, action_type = ''SLOT_SPIN'',
            context' = Some [(''bet'', JNumber 100), (''note'', JUndefined)]\<rparr>"

definition gem_pack :: BuyPayload where
  "gem_pack = \<lparr>user_id = 7, product_id = ''gem_pack_small'', amount = 1, quantity = Some 999,
                metadata = Some [(''amount'', JNumber 0)], idempotency_key = Some []\<rparr>"

section \<open>Constraint consolidation migration (revision 20250909_consolidate_constraints)\<close>

subsection \<open>The database the migration runs against\<close>

text \<open>
  The migration sees the database through SQLAlchemy's inspector and changes it through
  Alembic operations and one SQL statement. The state is what those calls read and write:
  per table its unique constraints (each a name and its column list, as
  \<open>get_unique_constraints\<close> reports them), its columns (name and the \<open>nullable\<close> entry,
  which \<open>get_columns\<close> may leave out) and its rows. A row lists the columns that hold a
  value; a column it does not list is \<open>NULL\<close>.

  A table also has the indexes created on their own (\<open>CREATE [UNIQUE] INDEX\<close>), which
  \<open>get_indexes\<close> reports and \<open>get_unique_constraints\<close> does not. A unique index
  enforces uniqueness as a unique constraint does, but it is no constraint:
  \<open>DROP CONSTRAINT\<close> does not remove it. The index that backs a unique constraint is
  counted with its constraint and is not listed again.
\<close>

datatype sqlval = SInt int | SText string

type_synonym row = "(string \<times> sqlval) list"

record index_info =
  name :: string
  column_names :: "string list"
  unique :: bool

record unique_constraint =
  name :: string
  column_names :: "string list"

record column_info =
  name :: string
  nullable :: "bool option"

record table =
  unique_constraints :: "unique_constraint list"
  indexes :: "index_info list"
  columns :: "column_info list"
  rows :: "row list"

type_synonym database = "(string \<times> table) list"

datatype error =
    NoSuchTable string
  | NoSuchConstraint string string
  | NoSuchColumn string string
  | NotNullViolation string string
  | UniqueViolation string string

definition col :: "row \<Rightarrow> string \<Rightarrow> sqlval option" where
  "col r c = map_of r c"

subsection \<open>Inspector calls\<close>

definition get_table_names :: "database \<Rightarrow> string list" where
  "get_table_names db = map fst db"

definition get_unique_constraints :: "string \<Rightarrow> database \<Rightarrow> error + unique_constraint list" where
  "get_unique_constraints tbl db =
     (case map_of db tbl of None \<Rightarrow> Inl (NoSuchTable tbl) | Some t \<Rightarrow> Inr (unique_constraints t))"

text \<open>
  The revision plan lists \<open>get_indexes\<close> among the existence checks; \<open>upgrade\<close> does not
  call it.
\<close>

definition get_indexes :: "string \<Rightarrow> database \<Rightarrow> error + index_info list" where
  "get_indexes tbl db =
     (case map_of db tbl of None \<Rightarrow> Inl (NoSuchTable tbl) | Some t \<Rightarrow> Inr (indexes t))"

definition get_columns :: "string \<Rightarrow> database \<Rightarrow> error + column_info list" where
  "get_columns tbl db =
     (case map_of db tbl of None \<Rightarrow> Inl (NoSuchTable tbl) | Some t \<Rightarrow> Inr (columns t))"

subsection \<open>Operations\<close>

text \<open>
  \<open>op.drop_constraint(name, table, type_='unique')\<close> issues
  \<open>ALTER TABLE table DROP CONSTRAINT name\<close>, which fails when the table has no constraint
  of that name. It leaves the table's indexes as they are.
\<close>

definition drop_constraint :: "string \<Rightarrow> string \<Rightarrow> database \<Rightarrow> error + database" where
  "drop_constraint n tbl db =
     (case map_of db tbl of
        None \<Rightarrow> Inl (NoSuchTable tbl)
      | Some t \<Rightarrow>
          if n \<in> set (map unique_constraint.name (unique_constraints t))
          then Inr (AList.update tbl
                 (t\<lparr>unique_constraints :=
                      filter (\<lambda>u. unique_constraint.name u \<noteq> n) (unique_constraints t)\<rparr>) db)
          else Inl (NoSuchConstraint tbl n))"

text \<open>\<open>DELETE FROM table WHERE column IS NULL\<close>.\<close>

definition delete_where_null :: "string \<Rightarrow> string \<Rightarrow> database \<Rightarrow> error + database" where
  "delete_where_null tbl c db =
     (case map_of db tbl of
        None \<Rightarrow> Inl (NoSuchTable tbl)
      | Some t \<Rightarrow> Inr (AList.update tbl (t\<lparr>rows := filter (\<lambda>r. col r c \<noteq> None) (rows t)\<rparr>) db))"

text \<open>
  \<open>op.alter_column(table, column, nullable=...)\<close>. Setting \<open>nullable=False\<close> issues
  \<open>ALTER COLUMN column SET NOT NULL\<close>, which the database refuses while a row holds
  \<open>NULL\<close> in that column.
\<close>

definition alter_column :: "string \<Rightarrow> string \<Rightarrow> bool \<Rightarrow> database \<Rightarrow> error + database" where
  "alter_column tbl c nl db =
     (case map_of db tbl of
        None \<Rightarrow> Inl (NoSuchTable tbl)
      | Some t \<Rightarrow>
          if c \<notin> set (map column_info.name (columns t)) then Inl (NoSuchColumn tbl c)
          else if \<not> nl \<and> list_ex (\<lambda>r. col r c = None) (rows t) then Inl (NotNullViolation tbl c)
          else Inr (AList.update tbl
                 (t\<lparr>columns :=
                      map (\<lambda>ci. if column_info.name ci = c then ci\<lparr>nullable := Some nl\<rparr> else ci)
                        (columns t)\<rparr>) db))"

text \<open>
  \<open>INSERT INTO table\<close>: refused when the row has \<open>NULL\<close> in a column that is
  \<open>NOT NULL\<close>, or when a unique constraint or a unique index finds a stored row equal to
  it on all of its columns. \<open>NULL\<close> never equals anything, so a row with \<open>NULL\<close> in one
  of the columns does not conflict under that constraint or index.
\<close>

definition conflicts :: "string list \<Rightarrow> row \<Rightarrow> row \<Rightarrow> bool" where
  "conflicts cols r r' = list_all (\<lambda>c. col r c \<noteq> None \<and> col r' c = col r c) cols"

definition insert_row :: "string \<Rightarrow> row \<Rightarrow> database \<Rightarrow> error + database" where
  "insert_row tbl r db =
     (case map_of db tbl of
        None \<Rightarrow> Inl (NoSuchTable tbl)
      | Some t \<Rightarrow>
          (case find (\<lambda>ci. nullable ci = Some False \<and> col r (column_info.name ci) = None) (columns t) of
             Some ci \<Rightarrow> Inl (NotNullViolation tbl (column_info.name ci))
           | None \<Rightarrow>
               (case find (\<lambda>u. list_ex (conflicts (column_names u) r) (rows t)) (unique_constraints t) of
                  Some u \<Rightarrow> Inl (UniqueViolation tbl (unique_constraint.name u))
                | None \<Rightarrow>
                    (case find (\<lambda>i. unique i \<and> list_ex (conflicts (index_info.column_names i) r) (rows t))
                            (indexes t) of
                       Some i \<Rightarrow> Inl (UniqueViolation tbl (index_info.name i))
                     | None \<Rightarrow> Inr (AList.update tbl (t\<lparr>rows := rows t @ [r]\<rparr>) db)))))"

subsection \<open>\<open>upgrade\<close>\<close>

text \<open>The loop \<open>for name in drop_names: op.drop_constraint(name, table, type_='unique')\<close>.\<close>

fun drop_constraints :: "string list \<Rightarrow> string \<Rightarrow> database \<Rightarrow> error + database" where
  "drop_constraints [] tbl db = Inr db"
| "drop_constraints (n # ns) tbl db =
     (case drop_constraint n tbl db of
        Inl e \<Rightarrow> Inl e
      | Inr db' \<Rightarrow> drop_constraints ns tbl db')"

text \<open>
  \<open>upgrade\<close> runs the same block for three tables, each with its own pair of columns:
  if the table exists, read its unique constraints, collect the names of those whose
  column list is exactly one of the two single columns, and drop each. The block is
  \<open>drop_single_uniques\<close>, with the table and the column lists as parameters.
\<close>

definition drop_single_uniques :: "string \<Rightarrow> string list list \<Rightarrow> database \<Rightarrow> error + database" where
  "drop_single_uniques tbl singles db =
     (if tbl \<in> set (get_table_names db) then
        (case get_unique_constraints tbl db of
           Inl e \<Rightarrow> Inl e
         | Inr uniques \<Rightarrow>
             (let drop_names = [unique_constraint.name u. u \<leftarrow> uniques, column_names u \<in> set singles]
              in drop_constraints drop_names tbl db))
      else Inr db)"

text \<open>
  The last block: if \<open>game_stats\<close> exists and has a \<open>user_id\<close> column that is nullable
  (\<open>user_col.get('nullable', True)\<close>: a missing entry counts as nullable), delete the
  rows whose \<open>user_id\<close> is \<open>NULL\<close>, then set the column \<open>NOT NULL\<close>.
\<close>

definition game_stats_user_id_not_null :: "database \<Rightarrow> error + database" where
  "game_stats_user_id_not_null db =
     (if ''game_stats'' \<in> set (get_table_names db) then
        (case get_columns ''game_stats'' db of
           Inl e \<Rightarrow> Inl e
         | Inr cols \<Rightarrow>
             (case find (\<lambda>c. column_info.name c = ''user_id'') cols of
                None \<Rightarrow> Inr db
              | Some user_col \<Rightarrow>
                  if (case nullable user_col of None \<Rightarrow> True | Some b \<Rightarrow> b) then
                    (case delete_where_null ''game_stats'' ''user_id'' db of
                       Inl e \<Rightarrow> Inl e
                     | Inr db' \<Rightarrow> alter_column ''game_stats'' ''user_id'' False db')
                  else Inr db))
      else Inr db)"

text \<open>
  The operations run in one transaction: an error from any of them aborts the migration
  and leaves the database as it was, so a failed \<open>upgrade\<close> returns the error alone.
\<close>

definition upgrade :: "database \<Rightarrow> error + database" where
  "upgrade db =
     (case drop_single_uniques ''shop_transactions'' [[''user_id''], [''product_id'']] db of
        Inl e \<Rightarrow> Inl e
      | Inr db1 \<Rightarrow>
     (case drop_single_uniques ''follow_relations'' [[''user_id''], [''target_user_id'']] db1 of
        Inl e \<Rightarrow> Inl e
      | Inr db2 \<Rightarrow>
     (case drop_single_uniques ''event_mission_links'' [[''event_id''], [''mission_template_id'']] db2 of
        Inl e \<Rightarrow> Inl e
      | Inr db3 \<Rightarrow> game_stats_user_id_not_null db3)))"

text \<open>\<open>downgrade\<close> only makes \<open>game_stats.user_id\<close> nullable again.\<close>

definition downgrade :: "database \<Rightarrow> error + database" where
  "downgrade db = alter_column ''game_stats'' ''user_id'' True db"

subsection \<open>Sample databases\<close>

text \<open>
  \<open>shop_before\<close> is \<open>shop_transactions\<close> as the revision plan describes it before the
  migration: a unique constraint on \<open>user_id\<close>, one on \<open>product_id\<close>, and the composite
  one, with one purchase stored and no index of its own. \<open>stats_before\<close> is a
  \<open>game_stats\<close> table whose \<open>user_id\<close> is nullable and whose second row has no user.

  \<open>shop_singles\<close> is a \<open>shop_transactions\<close> table that has the two single-column
  constraints but no composite one. \<open>shop_indexed\<close> has the composite constraint, and its
  uniqueness on \<open>user_id\<close> is a unique index, not a constraint.
\<close>

definition uq_user :: unique_constraint where
  "uq_user = \<lparr>unique_constraint.name = ''shop_transactions_user_id_key'', column_names = [''user_id'']\<rparr>"

definition uq_product :: unique_constraint where
  "uq_product = \<lparr>unique_constraint.name = ''shop_transactions_product_id_key'', column_names = [''product_id'']\<rparr>"

definition uq_idempotency :: unique_constraint where
  "uq_idempotency =
     \<lparr>unique_constraint.name = ''uq_shop_tx_user_product_idem'',
      column_names = [''user_id'', ''product_id'', ''idempotency_key'']\<rparr>"

definition purchase_row :: "int \<Rightarrow> string \<Rightarrow> string \<Rightarrow> row" where
  "purchase_row u p k =
     [(''user_id'', SInt u), (''product_id'', SText p), (''idempotency_key'', SText k)]"

definition shop_columns :: "column_info list" where
  "shop_columns =
     [\<lparr>name = ''user_id'', nullable = Some False\<rparr>,
      \<lparr>name = ''product_id'', nullable = Some False\<rparr>,
      \<lparr>name = ''idempotency_key'', nullable = Some True\<rparr>]"

definition shop_before :: table where
  "shop_before =
     \<lparr>unique_constraints = [uq_user, uq_product, uq_idempotency],
      indexes = [],
      columns = shop_columns,
      rows = [purchase_row 1 ''gem_pack_small'' ''k0'']\<rparr>"

definition shop_after :: table where
  "shop_after = shop_before\<lparr>unique_constraints := [uq_idempotency]\<rparr>"

definition stats_before :: table where
  "stats_before =
     \<lparr>unique_constraints = [],
      indexes = [],
      columns = [\<lparr>name = ''id'', nullable = Some False\<rparr>,
                 \<lparr>name = ''user_id'', nullable = Some True\<rparr>,
                 \<lparr>name = ''game_type'', nullable = Some True\<rparr>],
      rows = [[(''id'', SInt 1), (''user_id'', SInt 1), (''game_type'', SText ''slot'')],
              [(''id'', SInt 2), (''game_type'', SText ''crash'')],
              [(''id'', SInt 3), (''user_id'', SInt 2), (''game_type'', SText ''rps'')]]\<rparr>"

definition stats_after :: table where
  "stats_after =
     \<lparr>unique_constraints = [],
      indexes = [],
      columns = [\<lparr>name = ''id'', nullable = Some False\<rparr>,
                 \<lparr>name = ''user_id'', nullable = Some False\<rparr>,
                 \<lparr>name = ''game_type'', nullable = Some True\<rparr>],
      rows = [[(''id'', SInt 1), (''user_id'', SInt 1), (''game_type'', SText ''slot'')],
              [(''id'', SInt 3), (''user_id'', SInt 2), (''game_type'', SText ''rps'')]]\<rparr>"

definition shop_singles :: table where
  "shop_singles = shop_before\<lparr>unique_constraints := [uq_user, uq_product]\<rparr>"

definition ix_user :: index_info where
  "ix_user =
     \<lparr>index_info.name = ''ix_shop_transactions_user_id'',
      index_info.column_names = [''user_id''], unique = True\<rparr>"

definition shop_indexed :: table where
  "shop_indexed = shop_before\<lparr>unique_constraints := [uq_idempotency], indexes := [ix_user]\<rparr>"

definition db_before :: database where
  "db_before = [(''shop_transactions'', shop_before), (''game_stats'', stats_before)]"

definition db_after :: database where
  "db_after = [(''shop_transactions'', shop_after), (''game_stats'', stats_after)]"

definition db_singles :: database where
  "db_singles = [(''shop_transactions'', shop_singles)]"

definition db_indexed :: database where
  "db_indexed = [(''shop_transactions'', shop_indexed)]"

subsection \<open>Describing the migrated database\<close>

text \<open>
  PostgreSQL keeps constraint names unique within a table; \<open>named_uniquely\<close> says so of
  every table of the database. \<open>on_table\<close> changes one table and leaves a database
  without that table as it is. \<open>without_singles\<close> is a table with the unique constraints
  on exactly one of the listed column lists removed, \<open>not_null_user_id\<close> a table whose
  nullable \<open>user_id\<close> column has lost its \<open>NULL\<close> rows and become \<open>NOT NULL\<close>.
\<close>

definition named_uniquely :: "database \<Rightarrow> bool" where
  "named_uniquely db =
     list_all (\<lambda>tbl. case map_of db tbl of
                       None \<Rightarrow> True
                     | Some t \<Rightarrow> distinct (map unique_constraint.name (unique_constraints t)))
       (get_table_names db)"

definition on_table :: "string \<Rightarrow> (table \<Rightarrow> table) \<Rightarrow> database \<Rightarrow> database" where
  "on_table tbl f db =
     (case map_of db tbl of None \<Rightarrow> db | Some t \<Rightarrow> AList.update tbl (f t) db)"

definition without_singles :: "string list list \<Rightarrow> table \<Rightarrow> table" where
  "without_singles singles t =
     t\<lparr>unique_constraints := filter (\<lambda>u. column_names u \<notin> set singles) (unique_constraints t)\<rparr>"

definition not_null_user_id :: "table \<Rightarrow> table" where
  "not_null_user_id t =
     (case find (\<lambda>c. column_info.name c = ''user_id'') (columns t) of
        None \<Rightarrow> t
      | Some user_col \<Rightarrow>
          if nullable user_col = Some False then t
          else t\<lparr>rows := filter (\<lambda>r. col r ''user_id'' \<noteq> None) (rows t),
                 columns := map (\<lambda>ci. if column_info.name ci = ''user_id''
                                       then ci\<lparr>nullable := Some False\<rparr> else ci) (columns t)\<rparr>)"

text \<open>
  A row may be stored in a table when it has a value in every \<open>NOT NULL\<close> column.
  \<open>purchase_key\<close> are the columns that identify a purchase; a column list
  \<open>covers_purchase_key\<close> when it has all three, and a row is \<open>unstored\<close> in a table
  when no row of the table equals it on all three.
\<close>

definition fills_not_null :: "table \<Rightarrow> row \<Rightarrow> bool" where
  "fills_not_null t r =
     list_all (\<lambda>ci. nullable ci = Some False \<longrightarrow> col r (column_info.name ci) \<noteq> None) (columns t)"

definition purchase_key :: "string list" where
  "purchase_key = [''user_id'', ''product_id'', ''idempotency_key'']"

definition covers_purchase_key :: "string list \<Rightarrow> bool" where
  "covers_purchase_key cols = list_all (\<lambda>c. c \<in> set cols) purchase_key"

definition unstored :: "table \<Rightarrow> row \<Rightarrow> bool" where
  "unstored t r = list_all (\<lambda>r'. \<not> conflicts purchase_key r r') (rows t)"

section \<open>Purchase ledger\<close>

text \<open>
  The server side of \<open>POST /api/shop/purchase\<close> is not among the sources; the sources hold
  its caller (\<open>buyProduct\<close>) and the migration of its table. The definitions of this
  section follow the specification's contract
  \<open>purchase(user_id, product_id, idempotency_key?) -> PurchaseResult\<close>. The ledger is the
  \<open>shop_transactions\<close> table of the database above, a purchase record one of its rows.
\<close>

text \<open>
  Modelled from the spec: the state the purchase engine works on, which the sources do not
  declare. It holds the storage layer's database, each user's balance, and the price of
  every known product.
\<close>

record shop_state =
  storage :: database
  balance_of :: "int \<Rightarrow> int"
  price_of :: "string \<Rightarrow> int option"

text \<open>
  Modelled from the spec: \<open>PurchaseResult\<close>, missing from the sources. A purchase answers
  with the ledger record (the stored result), or with one of the failures
  \<open>InsufficientFunds\<close> and \<open>ProductNotFound\<close>, or with the storage layer's refusal of the
  insert.
\<close>

datatype PurchaseResult =
    Purchased row
  | InsufficientFunds
  | ProductNotFound
  | StorageRefused error

text \<open>
  Modelled from the spec: \<open>PurchaseRecord\<close>
  \<open>{user_id, product_id, idempotency_key, amount, status, created_at}\<close> as a ledger row,
  missing from the sources.
\<close>

definition PurchaseRecord :: "int \<Rightarrow> string \<Rightarrow> string \<Rightarrow> int \<Rightarrow> int \<Rightarrow> row" where
  "PurchaseRecord u p k price now =
     [(''user_id'', SInt u), (''product_id'', SText p), (''idempotency_key'', SText k),
      (''amount'', SInt price), (''status'', SText ''success''), (''created_at'', SInt now)]"

text \<open>
  Modelled from the spec: the lookup of "a record with the same
  \<open>(user_id, product_id, idempotency_key)\<close>", missing from the sources.
\<close>

definition same_purchase :: "int \<Rightarrow> string \<Rightarrow> string \<Rightarrow> row \<Rightarrow> bool" where
  "same_purchase u p k r \<longleftrightarrow>
     col r ''user_id'' = Some (SInt u) \<and> col r ''product_id'' = Some (SText p)
     \<and> col r ''idempotency_key'' = Some (SText k)"

text \<open>
  Modelled from the spec: the purchase ledger as the storage layer holds it, the rows of
  \<open>shop_transactions\<close>; the sources do not declare it.
\<close>

definition ledger :: "shop_state \<Rightarrow> row list" where
  "ledger s = (case map_of (storage s) ''shop_transactions'' of None \<Rightarrow> [] | Some t \<Rightarrow> rows t)"

text \<open>
  Modelled from the spec: the length of a record's idempotency key, from which the key
  generated server-side when the request omits one is chosen ("treated as a new,
  never-before-seen purchase"); missing from the sources. A key longer than every key in
  the ledger is carried by no stored record.
\<close>

definition key_length :: "row \<Rightarrow> nat" where
  "key_length r = (case col r ''idempotency_key'' of Some (SText k) \<Rightarrow> length k | _ \<Rightarrow> 0)"

text \<open>
  Modelled from the spec: the generated key itself, one character longer than the longest
  key in the ledger; the sources have no key generator.
\<close>

definition fresh_key :: "row list \<Rightarrow> string" where
  "fresh_key rs = replicate (Suc (fold max (map key_length rs) 0)) CHR ''k''"

text \<open>
  Modelled from the spec: \<open>purchase\<close> itself, missing from the sources. If a record with
  the same \<open>(user_id, product_id, idempotency_key)\<close> exists, the stored record is returned
  and nothing else happens. Otherwise an unknown product is \<open>ProductNotFound\<close>, a
  balance below the price is \<open>InsufficientFunds\<close>, and else the record is inserted and
  the price charged as one unit. When storage refuses the insert, nothing is charged and
  the conflict is resolved by reading the existing record; only when there is none to read
  is the refusal the answer. \<open>now\<close> is the time of the request.
\<close>

definition purchase ::
  "int \<Rightarrow> int \<Rightarrow> string \<Rightarrow> string option \<Rightarrow> shop_state \<Rightarrow> PurchaseResult \<times> shop_state" where
  "purchase now u p key s =
     (let k = (case key of None \<Rightarrow> fresh_key (ledger s) | Some k \<Rightarrow> k) in
      case find (same_purchase u p k) (ledger s) of
        Some r \<Rightarrow> (Purchased r, s)
      | None \<Rightarrow>
          (case price_of s p of
             None \<Rightarrow> (ProductNotFound, s)
           | Some price \<Rightarrow>
               if balance_of s u < price then (InsufficientFunds, s)
               else
                 (case insert_row ''shop_transactions'' (PurchaseRecord u p k price now) (storage s) of
                    Inr db' \<Rightarrow>
                      (Purchased (PurchaseRecord u p k price now),
                       s\<lparr>storage := db',
                         balance_of := (balance_of s)(u := balance_of s u - price)\<rparr>)
                  | Inl e \<Rightarrow>
                      (case find (same_purchase u p k) (ledger s) of
                         Some r \<Rightarrow> (Purchased r, s)
                       | None \<Rightarrow> (StorageRefused e, s)))))"

text \<open>
  A shop on the migrated sample database: user 1 holds 100, the small gem pack costs 30.
\<close>

definition shop0 :: shop_state where
  "shop0 = \<lparr>storage = db_after,
            balance_of = (\<lambda>_. 0)(1 := 100),
            price_of = (\<lambda>_. None)(''gem_pack_small'' := Some 30)\<rparr>"

section \<open>Game statistics\<close>

text \<open>
  The service that aggregates statistics (\<open>GameStatsService.aggregate_user_stats\<close>) is not
  among the sources; \<open>stats_details_schema.md\<close> gives the response schema and the
  derivation rules. The definitions of this section follow the specification and that note.
  \<open>win_rate\<close> is a floating-point number and is left out of the aggregate; caching and
  the reconciliation of a drifted aggregate are outside the model.
\<close>

text \<open>
  Modelled from the spec: the known game types, which the sources only list in the schema
  example and the endpoint table.
\<close>

datatype game_type = crash | slot | gacha | rps

text \<open>
  Modelled from the spec: the list of the known game types in the order of the schema
  example; the sources have no such list in code.
\<close>

definition game_types :: "game_type list" where
  "game_types = [crash, slot, gacha, rps]"

text \<open>
  Modelled from the spec: \<open>GameStatDetail\<close>, one record per (user, game type); the
  sources do not declare it. The user and the game type are the key under which a record is
  stored.
\<close>

record GameStatDetail =
  wins :: int
  losses :: int
  max_win :: int
  total :: int

text \<open>
  Modelled from the spec: the zero-valued record \<open>{wins:0, losses:0, max_win:0, total:0}\<close>
  that stands for a game type without results; missing from the sources.
\<close>

definition zero_detail :: GameStatDetail where
  "zero_detail = \<lparr>wins = 0, losses = 0, max_win = 0, total = 0\<rparr>"

text \<open>
  Modelled from the spec: the store of detail records, at most one per (user, game type);
  the sources do not declare it.
\<close>

type_synonym stats_store = "int \<times> game_type \<Rightarrow> GameStatDetail option"

text \<open>
  Modelled from the spec: how a game resolves, a win with the amount won or a loss; the
  sources have no type for it. An event is a user, a game type and an outcome.
\<close>

datatype outcome = Won int | Lost

text \<open>
  Modelled from the spec: the record of a user for a game type as a reader sees it, the
  stored record or else the zero-valued one ("missing game types are synthesized as
  zero-valued records"); missing from the sources.
\<close>

definition detail_of :: "stats_store \<Rightarrow> int \<Rightarrow> game_type \<Rightarrow> GameStatDetail" where
  "detail_of st u g = (case st (u, g) of None \<Rightarrow> zero_detail | Some d \<Rightarrow> d)"

text \<open>
  Modelled from the spec: the incremental update of a user's record when a game resolves
  ("updated incrementally as games resolve"), for which the sources have no code. A win
  counts one win and raises \<open>max_win\<close> to the amount won if that is larger; a loss counts
  one loss; both count one game.
\<close>

definition resolve_game :: "int \<times> game_type \<times> outcome \<Rightarrow> stats_store \<Rightarrow> stats_store" where
  "resolve_game ev st =
     (case ev of (u, g, oc) \<Rightarrow>
        (let d = detail_of st u g in
         st((u, g) \<mapsto>
           (case oc of
              Won a \<Rightarrow> d\<lparr>wins := wins d + 1, max_win := max (max_win d) a, total := total d + 1\<rparr>
            | Lost \<Rightarrow> d\<lparr>losses := losses d + 1, total := total d + 1\<rparr>))))"

text \<open>
  Modelled from the spec: a sequence of game-resolution events, applied in order; missing
  from the sources.
\<close>

fun resolve_all :: "(int \<times> game_type \<times> outcome) list \<Rightarrow> stats_store \<Rightarrow> stats_store" where
  "resolve_all [] st = st"
| "resolve_all (ev # evs) st = resolve_all evs (resolve_game ev st)"

text \<open>
  Modelled from the spec: \<open>GameStatAggregate\<close>, which the sources do not declare;
  \<open>win_rate\<close> and \<open>last_updated\<close> are not part of the model's record.
\<close>

record GameStatAggregate =
  total_games_played :: int
  total_wins :: int
  total_losses :: int
  overall_max_win :: int

text \<open>
  Modelled from the spec: \<open>max(details.*.max_win)\<close>, missing from the sources. The
  maximum of no values does not exist.
\<close>

fun maximum :: "int list \<Rightarrow> int option" where
  "maximum [] = None"
| "maximum (x # xs) = Some (fold max xs x)"

text \<open>
  Modelled from the spec: the recomputation of the aggregate from the details by the
  derivation rules (sums of \<open>total\<close>, \<open>wins\<close> and \<open>losses\<close>, maximum of
  \<open>max_win\<close>), for which the sources have no code. It has no result when there is no
  detail to take the maximum of.
\<close>

definition recompute :: "GameStatDetail list \<Rightarrow> GameStatAggregate option" where
  "recompute ds =
     (case maximum (map max_win ds) of
        None \<Rightarrow> None
      | Some m \<Rightarrow>
          Some \<lparr>total_games_played = sum_list (map total ds),
                total_wins = sum_list (map wins ds),
                total_losses = sum_list (map losses ds),
                overall_max_win = m\<rparr>)"

text \<open>
  Modelled from the spec: the response \<open>{success, stats: {aggregate, details,
  last_updated}}\<close>, which the sources give as a JSON example only.
\<close>

record StatsResponse =
  success :: bool
  aggregate :: GameStatAggregate
  details :: "(game_type \<times> GameStatDetail) list"
  last_updated :: int

text \<open>
  Modelled from the spec: \<open>getStats(user_id) -> {aggregate, details, last_updated}\<close> on
  the path that recomputes from the detail records, for which the sources have no code.
  The details list every known game type, a type without a record as the zero-valued
  record. \<open>now\<close> is the time of the request.
\<close>

definition getStats :: "int \<Rightarrow> int \<Rightarrow> stats_store \<Rightarrow> StatsResponse option" where
  "getStats now u st =
     (let ds = map (\<lambda>g. (g, detail_of st u g)) game_types in
      case recompute (map snd ds) of
        None \<Rightarrow> None
      | Some a \<Rightarrow> Some \<lparr>success = True, aggregate = a, details = ds, last_updated = now\<rparr>)"

text \<open>Sample events: user 5 plays slot three times; user 6 plays crash and rps.\<close>

definition slot_only :: "(int \<times> game_type \<times> outcome) list" where
  "slot_only = [(5, slot, Won 40), (5, slot, Lost), (5, slot, Won 250)]"

definition mixed_play :: "(int \<times> game_type \<times> outcome) list" where
  "mixed_play = [(6, crash, Won 90), (5, slot, Won 40), (6, rps, Lost), (6, crash, Won 20)]"

section \<open>Properties of the frontend action helpers\<close>

subsection \<open>\<open>buyProduct\<close>\<close>

text \<open>The request \<open>buyProduct\<close> hands to \<open>apiRequest\<close>, written out.\<close>

lemma buyProduct_request:
  "buyProduct apiRequest p w =
     apiRequest ''/api/shop/purchase''
       \<lparr>method' = ''POST'',
        body = Some (Object ((''product_id'', String (product_id p)) #
                 (case idempotency_key p of
                    None \<Rightarrow> []
                  | Some k \<Rightarrow> if k = [] then [] else [(''idempotency_key'', String k)])))\<rparr> w"
  by (simp add: buyProduct_def or_undefined_def split: option.split)

text \<open>
  Claim C9. For every payload, \<open>buyProduct\<close> makes one call, to \<open>/api/shop/purchase\<close>
  with method \<open>POST\<close>, whose body is a JSON object with no property other than
  \<open>product_id\<close> and \<open>idempotency_key\<close>; \<open>product_id\<close> is the payload's. The body is
  the same for any two payloads that agree on \<open>product_id\<close> and \<open>idempotency_key\<close>, so
  \<open>user_id\<close>, \<open>amount\<close>, \<open>quantity\<close> and \<open>metadata\<close> have no influence on the
  request. An empty-string \<open>idempotency_key\<close> is dropped: the body then has no
  \<open>idempotency_key\<close> property, and the request equals the one sent for a payload without
  the key.
\<close>

theorem buyProduct_body:
  "\<exists>b. (\<forall>(apiRequest :: ('e, 'r, 'w) apiRequest) w. buyProduct apiRequest p w =
             apiRequest ''/api/shop/purchase'' \<lparr>method' = ''POST'', body = Some (Object b)\<rparr> w)
     \<and> set (map fst b) \<subseteq> {''product_id'', ''idempotency_key''}
     \<and> map_of b ''product_id'' = Some (String (product_id p))
     \<and> map_of b ''idempotency_key'' =
          (case idempotency_key p of
             None \<Rightarrow> None
           | Some k \<Rightarrow> if k = [] then None else Some (String k))
     \<and> (\<forall>q. product_id q = product_id p \<and> idempotency_key q = idempotency_key p \<longrightarrow>
            (\<forall>(apiRequest :: ('e, 'r, 'w) apiRequest) w. buyProduct apiRequest q w = buyProduct apiRequest p w))
     \<and> (idempotency_key p = Some [] \<longrightarrow>
            (\<forall>(apiRequest :: ('e, 'r, 'w) apiRequest) w. buyProduct apiRequest p w = buyProduct apiRequest (p\<lparr>idempotency_key := None\<rparr>) w))"
proof -
  let ?b = "(''product_id'', String (product_id p)) #
                 (case idempotency_key p of
                    None \<Rightarrow> []
                  | Some k \<Rightarrow> if k = [] then [] else [(''idempotency_key'', String k)])"
  have 1: "\<forall>(apiRequest :: ('e, 'r, 'w) apiRequest) w. buyProduct apiRequest p w =
             apiRequest ''/api/shop/purchase'' \<lparr>method' = ''POST'', body = Some (Object ?b)\<rparr> w"
    by (simp add: buyProduct_request)
  have 2: "set (map fst ?b) \<subseteq> {''product_id'', ''idempotency_key''}"
    by (cases "idempotency_key p") auto
  have 3: "map_of ?b ''product_id'' = Some (String (product_id p))"
    by simp
  have 4: "map_of ?b ''idempotency_key'' =
          (case idempotency_key p of
             None \<Rightarrow> None
           | Some k \<Rightarrow> if k = [] then None else Some (String k))"
    by (simp split: option.split)
  have 5: "\<forall>q. product_id q = product_id p \<and> idempotency_key q = idempotency_key p \<longrightarrow>
            (\<forall>(apiRequest :: ('e, 'r, 'w) apiRequest) w. buyProduct apiRequest q w = buyProduct apiRequest p w)"
    by (simp add: buyProduct_request)
  have 6: "idempotency_key p = Some [] \<longrightarrow>
            (\<forall>(apiRequest :: ('e, 'r, 'w) apiRequest) w. buyProduct apiRequest p w = buyProduct apiRequest (p\<lparr>idempotency_key := None\<rparr>) w)"
    by (simp add: buyProduct_request)
  from 1 2 3 4 5 6 show ?thesis by blast
qed

text \<open>
  At a payload with \<open>amount = 1\<close>, \<open>quantity = 999\<close>, a metadata entry and the empty key,
  the one request recorded carries \<open>product_id\<close> alone.
\<close>

theorem buyProduct_body_witness:
  "idempotency_key gem_pack = Some []
   \<and> buyProduct (traced offline) gem_pack (0, []) =
       buyProduct (traced offline) (gem_pack\<lparr>idempotency_key := None\<rparr>) (0, [])
   \<and> snd (snd (buyProduct (traced offline) gem_pack (0, []))) =
       [(''/api/shop/purchase'',
         \<lparr>method' = ''POST'', body = Some (Object [(''product_id'', String ''gem_pack_small'')])\<rparr>)]"
proof -
  have k: "idempotency_key gem_pack = Some []"
    by (simp add: gem_pack_def)
  obtain b where
    req: "\<forall>(apiRequest :: (string, unit, nat \<times> (string \<times> RequestInit) list) apiRequest) w.
            buyProduct apiRequest gem_pack w =
            apiRequest ''/api/shop/purchase'' \<lparr>method' = ''POST'', body = Some (Object b)\<rparr> w"
    and keys: "set (map fst b) \<subseteq> {''product_id'', ''idempotency_key''}"
    and pid: "map_of b ''product_id'' = Some (String (product_id gem_pack))"
    and nokey: "map_of b ''idempotency_key'' =
          (case idempotency_key gem_pack of
             None \<Rightarrow> None
           | Some k \<Rightarrow> if k = [] then None else Some (String k))"
    and same: "idempotency_key gem_pack = Some [] \<longrightarrow>
            (\<forall>(apiRequest :: (string, unit, nat \<times> (string \<times> RequestInit) list) apiRequest) w.
               buyProduct apiRequest gem_pack w =
               buyProduct apiRequest (gem_pack\<lparr>idempotency_key := None\<rparr>) w)"
    using buyProduct_body [of gem_pack, where ?'e = string and ?'r = unit
        and ?'w = "nat \<times> (string \<times> RequestInit) list"]
    by blast
  from same k have eq: "buyProduct (traced offline) gem_pack (0, []) =
       buyProduct (traced offline) (gem_pack\<lparr>idempotency_key := None\<rparr>) (0, [])"
    by blast
  have tr: "snd (snd (buyProduct (traced offline) gem_pack (0, []))) =
       [(''/api/shop/purchase'',
         \<lparr>method' = ''POST'', body = Some (Object [(''product_id'', String ''gem_pack_small'')])\<rparr>)]"
    by (simp add: buyProduct_def traced_def offline_def gem_pack_def or_undefined_def)
  from k eq tr show ?thesis by simp
qed

subsection \<open>\<open>postActionsBatch\<close>\<close>

text \<open>A loop that completes has pushed one result per payload.\<close>

lemma post_each_length:
  "post_each apiRequest ps acc w = (Inr results, w') \<Longrightarrow> length results = length acc + length ps"
proof (induction ps arbitrary: acc w)
  case Nil
  then show ?case by simp
next
  case (Cons p ps)
  obtain res w1 where pa: "postAction apiRequest p w = (res, w1)"
    by (cases "postAction apiRequest p w")
  show ?case
  proof (cases res)
    case (Inl e)
    with Cons.prems pa show ?thesis by simp
  next
    case (Inr r)
    with Cons.prems pa have "post_each apiRequest ps (acc @ [r]) w1 = (Inr results, w')"
      by simp
    from Cons.IH [OF this] show ?thesis by simp
  qed
qed

text \<open>
  Under \<open>traced\<close> the loop returns what it returns without it, and has recorded the
  single-post requests of a prefix of the payloads, in order: all of them unless a post
  threw.
\<close>

lemma postAction_traced:
  "postAction (traced apiRequest) p (w, log) =
     (fst (postAction apiRequest p w), (snd (postAction apiRequest p w), log @ [action_request p]))"
  by (simp add: postAction_def traced_def action_request_def split: prod.split)

lemma post_each_traced:
  "\<exists>n\<le>length ps.
     post_each (traced apiRequest) ps acc (w, log) =
       (fst (post_each apiRequest ps acc w),
        (snd (post_each apiRequest ps acc w), log @ map action_request (take n ps)))
     \<and> (isl (fst (post_each apiRequest ps acc w)) \<or> n = length ps)"
proof (induction ps arbitrary: acc w log)
  case Nil
  show ?case by simp
next
  case (Cons p ps)
  obtain res w1 where pa: "postAction apiRequest p w = (res, w1)"
    by (cases "postAction apiRequest p w")
  show ?case
  proof (cases res)
    case (Inl e)
    have "post_each (traced apiRequest) (p # ps) acc (w, log) =
       (fst (post_each apiRequest (p # ps) acc w),
        (snd (post_each apiRequest (p # ps) acc w), log @ map action_request (take 1 (p # ps))))
     \<and> (isl (fst (post_each apiRequest (p # ps) acc w)) \<or> 1 = length (p # ps))"
      using pa Inl by (simp add: postAction_traced)
    moreover have "1 \<le> length (p # ps)" by simp
    ultimately show ?thesis by blast
  next
    case (Inr r)
    from Cons.IH [of "acc @ [r]" w1 "log @ [action_request p]"]
    obtain n where n: "n \<le> length ps"
      and eq: "post_each (traced apiRequest) ps (acc @ [r]) (w1, log @ [action_request p]) =
       (fst (post_each apiRequest ps (acc @ [r]) w1),
        (snd (post_each apiRequest ps (acc @ [r]) w1),
         (log @ [action_request p]) @ map action_request (take n ps)))"
      and fin: "isl (fst (post_each apiRequest ps (acc @ [r]) w1)) \<or> n = length ps"
      by blast
    have "post_each (traced apiRequest) (p # ps) acc (w, log) =
       (fst (post_each apiRequest (p # ps) acc w),
        (snd (post_each apiRequest (p # ps) acc w), log @ map action_request (take (Suc n) (p # ps))))
     \<and> (isl (fst (post_each apiRequest (p # ps) acc w)) \<or> Suc n = length (p # ps))"
      using pa Inr eq fin by (simp add: postAction_traced)
    moreover have "Suc n \<le> length (p # ps)" using n by simp
    ultimately show ?thesis by blast
  qed
qed

text \<open>
  Claim C10. Suppose the bulk request \<open>POST /api/actions/bulk\<close> throws \<open>err\<close>. If the
  sequential loop of \<open>postAction\<close> calls then completes, \<open>postActionsBatch\<close> resolves
  to \<open>{ logged: n }\<close> with \<open>n\<close> the number of payloads, and the requests made are the
  bulk request followed by one \<open>POST /api/actions\<close> per payload, in the payloads' order. If
  the loop throws, whatever it throws, \<open>postActionsBatch\<close> throws the bulk request's
  \<open>err\<close>. In both cases the requests made after the bulk request are the single posts of
  a prefix of the payloads.
\<close>

theorem postActionsBatch_fallback:
  assumes bulk: "apiRequest ''/api/actions/bulk'' (bulk_request ps) w = (Inl err, w1)"
  shows "(\<forall>results w2. post_each apiRequest ps [] w1 = (Inr results, w2) \<longrightarrow>
            postActionsBatch apiRequest ps w = (Inr (Logged (length ps)), w2)
            \<and> snd (snd (postActionsBatch (traced apiRequest) ps (w, []))) =
                (''/api/actions/bulk'', bulk_request ps) # map action_request ps)
       \<and> (\<forall>e w2. post_each apiRequest ps [] w1 = (Inl e, w2) \<longrightarrow>
            postActionsBatch apiRequest ps w = (Inl err, w2))
       \<and> (\<exists>n\<le>length ps. snd (snd (postActionsBatch (traced apiRequest) ps (w, []))) =
            (''/api/actions/bulk'', bulk_request ps) # map action_request (take n ps))"
proof -
  let ?bulk = "(''/api/actions/bulk'', bulk_request ps)"
  have tb: "traced apiRequest ''/api/actions/bulk'' (bulk_request ps) (w, []) = (Inl err, (w1, [?bulk]))"
    using bulk by (simp add: traced_def)
  obtain n where n: "n \<le> length ps"
    and eq: "post_each (traced apiRequest) ps [] (w1, [?bulk]) =
       (fst (post_each apiRequest ps [] w1),
        (snd (post_each apiRequest ps [] w1), [?bulk] @ map action_request (take n ps)))"
    and fin: "isl (fst (post_each apiRequest ps [] w1)) \<or> n = length ps"
    using post_each_traced [of ps apiRequest "[]" w1 "[?bulk]"] by blast
  have tr: "snd (snd (postActionsBatch (traced apiRequest) ps (w, []))) =
      ?bulk # map action_request (take n ps)"
    by (cases "fst (post_each apiRequest ps [] w1)")
       (simp_all add: postActionsBatch_def tb eq)
  have ok: "\<forall>results w2. post_each apiRequest ps [] w1 = (Inr results, w2) \<longrightarrow>
            postActionsBatch apiRequest ps w = (Inr (Logged (length ps)), w2)
            \<and> snd (snd (postActionsBatch (traced apiRequest) ps (w, []))) =
                ?bulk # map action_request ps"
  proof (intro allI impI)
    fix results w2
    assume pe: "post_each apiRequest ps [] w1 = (Inr results, w2)"
    from post_each_length [OF pe] have len: "length results = length ps" by simp
    from pe fin have "n = length ps" by simp
    with tr pe bulk len
    show "postActionsBatch apiRequest ps w = (Inr (Logged (length ps)), w2)
            \<and> snd (snd (postActionsBatch (traced apiRequest) ps (w, []))) =
                ?bulk # map action_request ps"
      by (simp add: postActionsBatch_def)
  qed
  have err: "\<forall>e w2. post_each apiRequest ps [] w1 = (Inl e, w2) \<longrightarrow>
            postActionsBatch apiRequest ps w = (Inl err, w2)"
    using bulk by (simp add: postActionsBatch_def)
  from ok err n tr show ?thesis by blast
qed

text \<open>
  Two payloads against a server without the bulk endpoint: both are posted and the result
  is \<open>{ logged: 2 }\<close>. Against a server that also fails the second single post with a
  500, the error thrown is the bulk request's 404.
\<close>

theorem postActionsBatch_fallback_witness:
  "bulk_down ''/api/actions/bulk'' (bulk_request [click, spin]) 0 = (Inl ''404 Not Found'', 0)
   \<and> postActionsBatch bulk_down [click, spin] 0 = (Inr (Logged 2), 2)
   \<and> snd (snd (postActionsBatch (traced bulk_down) [click, spin] (0, []))) =
        [(''/api/actions/bulk'', bulk_request [click, spin]), action_request click, action_request spin]
   \<and> flaky ''/api/actions/bulk'' (bulk_request [click, spin]) 0 = (Inl ''404 Not Found'', 0)
   \<and> post_each flaky [click, spin] [] 0 = (Inl ''500 Internal Server Error'', 2)
   \<and> postActionsBatch flaky [click, spin] 0 = (Inl ''404 Not Found'', 2)"
proof -
  have b1: "bulk_down ''/api/actions/bulk'' (bulk_request [click, spin]) 0 = (Inl ''404 Not Found'', 0)"
    by (simp add: bulk_down_def)
  have p1: "post_each bulk_down [click, spin] [] 0 = (Inr [0, 1], 2)"
    by (simp add: bulk_down_def postAction_def)
  have b2: "flaky ''/api/actions/bulk'' (bulk_request [click, spin]) 0 = (Inl ''404 Not Found'', 0)"
    by (simp add: flaky_def)
  have p2: "post_each flaky [click, spin] [] 0 = (Inl ''500 Internal Server Error'', 2)"
    by (simp add: flaky_def postAction_def)
  from postActionsBatch_fallback [where apiRequest = bulk_down and ps = "[click, spin]" and w = 0, OF b1] p1
  have r1: "postActionsBatch bulk_down [click, spin] 0 = (Inr (Logged 2), 2)
    \<and> snd (snd (postActionsBatch (traced bulk_down) [click, spin] (0, []))) =
        [(''/api/actions/bulk'', bulk_request [click, spin]), action_request click, action_request spin]"
    by simp
  from postActionsBatch_fallback [where apiRequest = flaky and ps = "[click, spin]" and w = 0, OF b2] p2
  have r2: "postActionsBatch flaky [click, spin] 0 = (Inl ''404 Not Found'', 2)"
    by simp
  from b1 r1 b2 p2 r2 show ?thesis by simp
qed

section \<open>Properties of the constraint consolidation migration\<close>

subsection \<open>List and table facts\<close>

text \<open>The equations that evaluate the migration, and those of the sample databases.\<close>

lemmas migration_defs =
  upgrade_def drop_single_uniques_def game_stats_user_id_not_null_def get_table_names_def
  get_unique_constraints_def get_columns_def drop_constraint_def delete_where_null_def
  alter_column_def insert_row_def conflicts_def col_def named_uniquely_def fills_not_null_def
  purchase_key_def covers_purchase_key_def unstored_def

lemmas sample_defs =
  db_before_def db_after_def shop_before_def shop_after_def shop_columns_def stats_before_def
  stats_after_def uq_user_def uq_product_def uq_idempotency_def purchase_row_def
  shop_singles_def ix_user_def shop_indexed_def db_singles_def db_indexed_def

lemma find_Some_mem: "find P xs = Some x \<Longrightarrow> x \<in> set xs \<and> P x"
  by (induction xs) (auto split: if_splits)

lemma comprehension_map_filter:
  "concat (map (\<lambda>x. if P x then [f x] else []) xs) = map f (filter P xs)"
  by (induction xs) simp_all

text \<open>\<open>named_uniquely\<close> speaks of the tables that lookups reach.\<close>

lemma named_uniquely_iff:
  "named_uniquely db \<longleftrightarrow>
     (\<forall>tbl t. map_of db tbl = Some t \<longrightarrow> distinct (map unique_constraint.name (unique_constraints t)))"
proof
  assume nu: "named_uniquely db"
  show "\<forall>tbl t. map_of db tbl = Some t \<longrightarrow> distinct (map unique_constraint.name (unique_constraints t))"
  proof (intro allI impI)
    fix tbl t
    assume m: "map_of db tbl = Some t"
    then have "tbl \<in> set (get_table_names db)"
      by (auto simp: get_table_names_def dest: map_of_SomeD intro: rev_image_eqI)
    with nu m show "distinct (map unique_constraint.name (unique_constraints t))"
      by (auto simp: named_uniquely_def list_all_iff)
  qed
next
  assume "\<forall>tbl t. map_of db tbl = Some t \<longrightarrow> distinct (map unique_constraint.name (unique_constraints t))"
  then show "named_uniquely db"
    by (auto simp: named_uniquely_def list_all_iff split: option.split)
qed

lemma map_of_on_table:
  "map_of (on_table tbl f db) tbl' =
     (if tbl' = tbl then map_option f (map_of db tbl) else map_of db tbl')"
  by (simp add: on_table_def update_conv' split: option.split)

lemma named_uniquely_on_table:
  assumes "named_uniquely db"
    and "\<And>t. distinct (map unique_constraint.name (unique_constraints t)) \<Longrightarrow>
           distinct (map unique_constraint.name (unique_constraints (f t)))"
  shows "named_uniquely (on_table tbl f db)"
  using assms by (auto simp: named_uniquely_iff map_of_on_table split: if_splits)

subsection \<open>What each block of \<open>upgrade\<close> does\<close>

text \<open>
  Dropping distinct names that the table has succeeds and removes exactly the constraints
  so named.
\<close>

lemma drop_constraints_ok:
  assumes "map_of db tbl = Some t"
    and "distinct ns"
    and "set ns \<subseteq> set (map unique_constraint.name (unique_constraints t))"
  shows "drop_constraints ns tbl db =
     Inr (AList.update tbl
       (t\<lparr>unique_constraints :=
            filter (\<lambda>u. unique_constraint.name u \<notin> set ns) (unique_constraints t)\<rparr>) db)"
  using assms
proof (induction ns arbitrary: db t)
  case Nil
  then show ?case by (simp add: update_triv)
next
  case (Cons n ns)
  let ?t1 = "t\<lparr>unique_constraints :=
                filter (\<lambda>u. unique_constraint.name u \<noteq> n) (unique_constraints t)\<rparr>"
  let ?db1 = "AList.update tbl ?t1 db"
  from Cons.prems have d1: "drop_constraint n tbl db = Inr ?db1"
    by (simp add: drop_constraint_def)
  have m1: "map_of ?db1 tbl = Some ?t1"
    by (simp add: update_conv')
  from Cons.prems have dn: "distinct ns" and nn: "n \<notin> set ns" by simp_all
  have sub: "set ns \<subseteq> set (map unique_constraint.name (unique_constraints ?t1))"
  proof
    fix x
    assume x: "x \<in> set ns"
    with Cons.prems obtain u where u: "u \<in> set (unique_constraints t)" "unique_constraint.name u = x"
      by auto
    from x nn have "x \<noteq> n" by auto
    with u show "x \<in> set (map unique_constraint.name (unique_constraints ?t1))"
      by auto
  qed
  have filt: "filter (\<lambda>u. unique_constraint.name u \<notin> set ns)
                (filter (\<lambda>u. unique_constraint.name u \<noteq> n) (unique_constraints t)) =
              filter (\<lambda>u. unique_constraint.name u \<notin> set (n # ns)) (unique_constraints t)"
    by (auto intro: filter_cong)
  from Cons.IH [OF m1 dn sub] d1 filt show ?case
    by simp
qed

text \<open>
  With distinct names, removing the elements that share a name with a selected element
  removes the selected elements and no other.
\<close>

lemma filter_names_of_filter:
  assumes "distinct (map f xs)"
  shows "filter (\<lambda>x. f x \<notin> set (map f (filter P xs))) xs = filter (\<lambda>x. \<not> P x) xs"
proof (rule filter_cong [OF refl])
  fix x
  assume x: "x \<in> set xs"
  from assms have inj: "inj_on f (set xs)"
    by (simp add: distinct_map)
  show "(f x \<notin> set (map f (filter P xs))) = (\<not> P x)"
  proof
    assume "f x \<notin> set (map f (filter P xs))"
    with x show "\<not> P x" by auto
  next
    assume np: "\<not> P x"
    show "f x \<notin> set (map f (filter P xs))"
    proof
      assume "f x \<in> set (map f (filter P xs))"
      then obtain y where y: "y \<in> set xs" "P y" "f y = f x" by auto
      with inj x have "y = x" by (auto dest: inj_onD)
      with y np show False by simp
    qed
  qed
qed

lemma drop_single_uniques_ok:
  assumes "named_uniquely db"
  shows "drop_single_uniques tbl singles db = Inr (on_table tbl (without_singles singles) db)"
proof (cases "map_of db tbl")
  case None
  then have "tbl \<notin> set (get_table_names db)"
    by (simp add: get_table_names_def map_of_eq_None_iff)
  with None show ?thesis
    by (simp add: drop_single_uniques_def on_table_def)
next
  case (Some t)
  then have mem: "tbl \<in> set (get_table_names db)"
    by (auto simp: get_table_names_def dest: map_of_SomeD intro: rev_image_eqI)
  from assms Some have d: "distinct (map unique_constraint.name (unique_constraints t))"
    by (auto simp: named_uniquely_iff)
  let ?P = "\<lambda>u. column_names u \<in> set singles"
  let ?ns = "map unique_constraint.name (filter ?P (unique_constraints t))"
  have dn: "distinct ?ns" using d by (rule distinct_map_filter)
  have sub: "set ?ns \<subseteq> set (map unique_constraint.name (unique_constraints t))" by auto
  have "drop_single_uniques tbl singles db = drop_constraints ?ns tbl db"
    using mem Some
    by (simp add: drop_single_uniques_def get_unique_constraints_def comprehension_map_filter)
  also have "\<dots> = Inr (AList.update tbl
       (t\<lparr>unique_constraints :=
            filter (\<lambda>u. unique_constraint.name u \<notin> set ?ns) (unique_constraints t)\<rparr>) db)"
    by (rule drop_constraints_ok [OF Some dn sub])
  also have "filter (\<lambda>u. unique_constraint.name u \<notin> set ?ns) (unique_constraints t) =
      filter (\<lambda>u. \<not> ?P u) (unique_constraints t)"
    by (rule filter_names_of_filter [OF d])
  finally show ?thesis using Some
    by (simp add: on_table_def without_singles_def)
qed

text \<open>
  The \<open>game_stats\<close> block never fails: by the time \<open>SET NOT NULL\<close> runs, the
  \<open>DELETE\<close> has removed every row it could object to.
\<close>

lemma game_stats_user_id_not_null_ok:
  "game_stats_user_id_not_null db = Inr (on_table ''game_stats'' not_null_user_id db)"
proof (cases "map_of db ''game_stats''")
  case None
  then have "''game_stats'' \<notin> set (get_table_names db)"
    by (simp add: get_table_names_def map_of_eq_None_iff)
  with None show ?thesis
    by (simp add: game_stats_user_id_not_null_def on_table_def)
next
  case (Some t)
  then have mem: "''game_stats'' \<in> set (get_table_names db)"
    by (auto simp: get_table_names_def dest: map_of_SomeD intro: rev_image_eqI)
  show ?thesis
  proof (cases "find (\<lambda>c. column_info.name c = ''user_id'') (columns t)")
    case None
    with Some mem show ?thesis
      by (simp add: game_stats_user_id_not_null_def get_columns_def on_table_def
          not_null_user_id_def update_triv)
  next
    case (Some c)
    note c = this
    from find_Some_mem [OF this]
    have cin: "''user_id'' \<in> set (map column_info.name (columns t))"
      by (auto intro: rev_image_eqI)
    show ?thesis
    proof (cases "nullable c = Some False")
      case True
      with c \<open>map_of db ''game_stats'' = Some t\<close> mem show ?thesis
        by (simp add: game_stats_user_id_not_null_def get_columns_def on_table_def
            not_null_user_id_def update_triv)
    next
      case False
      then have nl: "(case nullable c of None \<Rightarrow> True | Some b \<Rightarrow> b)"
        by (cases "nullable c") auto
      let ?t1 = "t\<lparr>rows := filter (\<lambda>r. col r ''user_id'' \<noteq> None) (rows t)\<rparr>"
      have del: "delete_where_null ''game_stats'' ''user_id'' db =
          Inr (AList.update ''game_stats'' ?t1 db)"
        using \<open>map_of db ''game_stats'' = Some t\<close> by (simp add: delete_where_null_def)
      have alt: "alter_column ''game_stats'' ''user_id'' False (AList.update ''game_stats'' ?t1 db) =
          Inr (AList.update ''game_stats'' (not_null_user_id t) db)"
        using cin c False
        by (auto simp: alter_column_def update_conv' list_ex_iff not_null_user_id_def)
      from c nl del alt \<open>map_of db ''game_stats'' = Some t\<close> mem show ?thesis
        by (simp add: game_stats_user_id_not_null_def get_columns_def on_table_def)
    qed
  qed
qed

text \<open>The whole migration, on a database whose constraint names are unique per table.\<close>

lemma distinct_without_singles:
  "distinct (map unique_constraint.name (unique_constraints t)) \<Longrightarrow>
   distinct (map unique_constraint.name (unique_constraints (without_singles singles t)))"
  by (simp add: without_singles_def distinct_map_filter)

lemma upgrade_ok:
  assumes "named_uniquely db"
  shows "upgrade db =
     Inr (on_table ''game_stats'' not_null_user_id
           (on_table ''event_mission_links'' (without_singles [[''event_id''], [''mission_template_id'']])
             (on_table ''follow_relations'' (without_singles [[''user_id''], [''target_user_id'']])
               (on_table ''shop_transactions'' (without_singles [[''user_id''], [''product_id'']]) db))))"
proof -
  let ?db1 = "on_table ''shop_transactions'' (without_singles [[''user_id''], [''product_id'']]) db"
  let ?db2 = "on_table ''follow_relations'' (without_singles [[''user_id''], [''target_user_id'']]) ?db1"
  have n1: "named_uniquely ?db1"
    using assms by (rule named_uniquely_on_table) (rule distinct_without_singles)
  have n2: "named_uniquely ?db2"
    using n1 by (rule named_uniquely_on_table) (rule distinct_without_singles)
  show ?thesis
    by (simp add: upgrade_def drop_single_uniques_ok [OF assms] drop_single_uniques_ok [OF n1]
        drop_single_uniques_ok [OF n2] game_stats_user_id_not_null_ok)
qed

text \<open>
  Whatever the database, a failing \<open>upgrade\<close> fails in a \<open>DROP CONSTRAINT\<close>, never in
  \<open>SET NOT NULL\<close>.
\<close>

lemma drop_constraints_error:
  "drop_constraints ns tbl db = Inl e \<Longrightarrow> e \<noteq> NotNullViolation a b"
proof (induction ns arbitrary: db)
  case Nil
  then show ?case by simp
next
  case (Cons n ns)
  show ?case
  proof (cases "drop_constraint n tbl db")
    case (Inl e')
    with Cons.prems have "e' = e" by simp
    with Inl show ?thesis
      by (auto simp: drop_constraint_def split: option.splits if_splits)
  next
    case (Inr db')
    with Cons.prems have "drop_constraints ns tbl db' = Inl e" by simp
    then show ?thesis by (rule Cons.IH)
  qed
qed

lemma drop_single_uniques_error:
  "drop_single_uniques tbl singles db = Inl e \<Longrightarrow> e \<noteq> NotNullViolation a b"
  by (auto simp: drop_single_uniques_def get_unique_constraints_def
      split: if_splits option.splits dest: drop_constraints_error)

lemma upgrade_error:
  "upgrade db = Inl e \<Longrightarrow> e \<noteq> NotNullViolation a b"
  by (auto simp: upgrade_def game_stats_user_id_not_null_ok
      split: sum.splits dest: drop_single_uniques_error)


lemma upgrade_game_stats_table:
  assumes "named_uniquely db" and "map_of db ''game_stats'' = Some t"
  shows "\<exists>db'. upgrade db = Inr db' \<and> map_of db' ''game_stats'' = Some (not_null_user_id t)"
  using assms by (simp add: upgrade_ok map_of_on_table)

subsection \<open>Inserting rows\<close>






subsection \<open>\<open>shop_transactions\<close> after the migration\<close>




subsection \<open>\<open>game_stats\<close> after the migration\<close>

text \<open>
  Claim C7, as the migration behaves. Let the database have constraint names unique per
  table and a \<open>game_stats\<close> table whose \<open>user_id\<close> column is not yet \<open>NOT NULL\<close>. Then
  \<open>upgrade\<close> does not abort: it succeeds, the rows of \<open>game_stats\<close> afterwards are the
  previous rows that have a \<open>user_id\<close>, in their order (the rows with \<open>NULL\<close> are
  deleted, not left for an operator), none of them holds \<open>NULL\<close> in \<open>user_id\<close>, and the
  column is \<open>NOT NULL\<close>; the column names and the unique constraints are unchanged. On no
  database at all does \<open>upgrade\<close> fail with a \<open>NOT NULL\<close> violation: the constraint is
  never applied against violating rows.
\<close>

theorem upgrade_game_stats_deletes_null_rows:
  assumes wf: "named_uniquely db"
    and tbl: "map_of db ''game_stats'' = Some t"
    and uc: "find (\<lambda>c. column_info.name c = ''user_id'') (columns t) = Some user_col"
    and nl: "nullable user_col \<noteq> Some False"
  shows "(\<exists>db' t'. upgrade db = Inr db' \<and> map_of db' ''game_stats'' = Some t'
          \<and> rows t' = filter (\<lambda>r. col r ''user_id'' \<noteq> None) (rows t)
          \<and> \<not> list_ex (\<lambda>r. col r ''user_id'' = None) (rows t')
          \<and> list_all (\<lambda>ci. column_info.name ci = ''user_id'' \<longrightarrow> nullable ci = Some False) (columns t')
          \<and> map column_info.name (columns t') = map column_info.name (columns t)
          \<and> unique_constraints t' = unique_constraints t)
       \<and> (\<forall>db0 tbl0 c0. upgrade db0 \<noteq> Inl (NotNullViolation tbl0 c0))"
proof -
  let ?t' = "not_null_user_id t"
  from upgrade_game_stats_table [OF wf tbl] obtain db'
    where up: "upgrade db = Inr db'" and m: "map_of db' ''game_stats'' = Some ?t'"
    by blast
  have t': "?t' = t\<lparr>rows := filter (\<lambda>r. col r ''user_id'' \<noteq> None) (rows t),
                 columns := map (\<lambda>ci. if column_info.name ci = ''user_id''
                                       then ci\<lparr>nullable := Some False\<rparr> else ci) (columns t)\<rparr>"
    using uc nl by (simp add: not_null_user_id_def)
  have 1: "rows ?t' = filter (\<lambda>r. col r ''user_id'' \<noteq> None) (rows t)"
    by (simp add: t')
  have 2: "\<not> list_ex (\<lambda>r. col r ''user_id'' = None) (rows ?t')"
    by (auto simp: 1 list_ex_iff)
  have 3: "list_all (\<lambda>ci. column_info.name ci = ''user_id'' \<longrightarrow> nullable ci = Some False) (columns ?t')"
    by (auto simp: t' list_all_iff)
  have 4: "map column_info.name (columns ?t') = map column_info.name (columns t)"
    by (simp add: t' comp_def if_distrib cong: if_cong)
  have 5: "unique_constraints ?t' = unique_constraints t"
    by (simp add: t')
  have 6: "\<forall>db0 tbl0 c0. upgrade db0 \<noteq> Inl (NotNullViolation tbl0 c0)"
    by (auto dest: upgrade_error)
  from up m 1 2 3 4 5 6 show ?thesis by blast
qed

text \<open>A \<open>game_stats\<close> table with three rows, the second without a user.\<close>

theorem upgrade_game_stats_deletes_null_rows_witness:
  "named_uniquely db_before
   \<and> map_of db_before ''game_stats'' = Some stats_before
   \<and> find (\<lambda>c. column_info.name c = ''user_id'') (columns stats_before) =
       Some \<lparr>column_info.name = ''user_id'', nullable = Some True\<rparr>
   \<and> (\<exists>db' t'. upgrade db_before = Inr db' \<and> map_of db' ''game_stats'' = Some t'
        \<and> rows t' = [[(''id'', SInt 1), (''user_id'', SInt 1), (''game_type'', SText ''slot'')],
                     [(''id'', SInt 3), (''user_id'', SInt 2), (''game_type'', SText ''rps'')]])"
proof -
  have wf: "named_uniquely db_before"
    by (simp add: migration_defs sample_defs)
  have tbl: "map_of db_before ''game_stats'' = Some stats_before"
    by (simp add: db_before_def)
  have uc: "find (\<lambda>c. column_info.name c = ''user_id'') (columns stats_before) =
       Some \<lparr>column_info.name = ''user_id'', nullable = Some True\<rparr>"
    by (simp add: stats_before_def)
  have nl: "nullable \<lparr>column_info.name = ''user_id'', nullable = Some True\<rparr> \<noteq> Some False"
    by simp
  have f: "filter (\<lambda>r. col r ''user_id'' \<noteq> None) (rows stats_before) =
      [[(''id'', SInt 1), (''user_id'', SInt 1), (''game_type'', SText ''slot'')],
       [(''id'', SInt 3), (''user_id'', SInt 2), (''game_type'', SText ''rps'')]]"
    by (simp add: stats_before_def col_def)
  from upgrade_game_stats_deletes_null_rows [OF wf tbl uc nl] f wf tbl uc
  show ?thesis by auto
qed

text \<open>
  Claim C7 as stated says that a migration that finds violating rows aborts before altering
  the schema and leaves the data. Here the second row of \<open>game_stats\<close> has \<open>NULL\<close> in
  \<open>user_id\<close>, and \<open>upgrade\<close> returns the migrated database: the column is altered and
  the row is gone.
\<close>

theorem upgrade_null_user_id_not_aborted:
  "map_of db_before ''game_stats'' = Some stats_before
   \<and> col (rows stats_before ! 1) ''user_id'' = None
   \<and> upgrade db_before = Inr db_after
   \<and> map_of db_after ''game_stats'' = Some stats_after
   \<and> columns stats_after \<noteq> columns stats_before
   \<and> rows stats_after \<noteq> rows stats_before"
  by (simp add: migration_defs sample_defs)

section \<open>Properties of the purchase ledger\<close>

lemma same_purchase_PurchaseRecord: "same_purchase u p k (PurchaseRecord u p k price now)"
  by (simp add: same_purchase_def PurchaseRecord_def col_def)

lemma insert_row_rows:
  assumes "insert_row tbl r db = Inr db'"
  shows "\<exists>t. map_of db tbl = Some t \<and> map_of db' tbl = Some (t\<lparr>rows := rows t @ [r]\<rparr>)"
  using assms by (auto simp: insert_row_def update_conv' split: option.splits)

lemma ledger_after_insert:
  assumes "insert_row ''shop_transactions'' r (storage s) = Inr db'"
  shows "ledger (s\<lparr>storage := db', balance_of := b\<rparr>) = ledger s @ [r]"
  using insert_row_rows [OF assms] by (auto simp: ledger_def)

lemma find_None_filter: "find P xs = None \<Longrightarrow> filter P xs = []"
  by (induction xs) (auto split: if_splits)

lemma find_append_new: "find P xs = None \<Longrightarrow> P x \<Longrightarrow> find P (xs @ [x]) = Some x"
  by (induction xs) (auto split: if_splits)

text \<open>The generated key is carried by no record of the ledger it was generated for.\<close>

lemma fold_max_le: "(m::nat) \<le> fold max xs m"
  by (induction xs arbitrary: m) (auto intro: order_trans [OF max.cobounded2])

lemma fold_max_mem: "x \<in> set xs \<Longrightarrow> (x::nat) \<le> fold max xs m"
proof (induction xs arbitrary: m)
  case Nil
  then show ?case by simp
next
  case (Cons y ys)
  show ?case
  proof (cases "x = y")
    case True
    have "x \<le> max y m" using True by simp
    also have "\<dots> \<le> fold max ys (max y m)" by (rule fold_max_le)
    finally show ?thesis by simp
  next
    case False
    with Cons.prems have "x \<in> set ys" by simp
    from Cons.IH [OF this] show ?thesis by simp
  qed
qed

lemma fresh_key_unused: "find (same_purchase u p (fresh_key rs)) rs = None"
proof -
  have "\<not> same_purchase u p (fresh_key rs) r" if r: "r \<in> set rs" for r
  proof
    assume "same_purchase u p (fresh_key rs) r"
    then have "key_length r = length (fresh_key rs)"
      by (simp add: same_purchase_def key_length_def)
    moreover from r have "key_length r \<le> fold max (map key_length rs) 0"
      by (intro fold_max_mem) simp
    ultimately show False by (simp add: fresh_key_def)
  qed
  then show ?thesis by (simp add: find_None_iff)
qed

text \<open>The two paths of a purchase with a given key: a stored record, or none yet.\<close>

lemma purchase_replay:
  assumes "find (same_purchase u p k) (ledger s) = Some r"
  shows "purchase now u p (Some k) s = (Purchased r, s)"
  using assms by (simp add: purchase_def)

lemma purchase_new:
  assumes "find (same_purchase u p k) (ledger s) = None"
  shows "purchase now u p (Some k) s =
     (case price_of s p of
        None \<Rightarrow> (ProductNotFound, s)
      | Some price \<Rightarrow>
          if balance_of s u < price then (InsufficientFunds, s)
          else
            (case insert_row ''shop_transactions'' (PurchaseRecord u p k price now) (storage s) of
               Inl e \<Rightarrow> (StorageRefused e, s)
             | Inr db' \<Rightarrow>
                 (Purchased (PurchaseRecord u p k price now),
                  s\<lparr>storage := db', balance_of := (balance_of s)(u := balance_of s u - price)\<rparr>)))"
  using assms by (simp add: purchase_def split: option.split sum.split)

text \<open>
  Unless storage refused the first call's insert, a second call with the same user,
  product and key returns what the first returned and leaves the state the first left.
\<close>

lemma purchase_twice:
  assumes "\<And>e. fst (purchase now1 u p (Some k) s) \<noteq> StorageRefused e"
  shows "purchase now2 u p (Some k) (snd (purchase now1 u p (Some k) s)) =
     purchase now1 u p (Some k) s"
proof (cases "find (same_purchase u p k) (ledger s)")
  case (Some r)
  then show ?thesis by (simp add: purchase_replay)
next
  case None
  note fresh = this
  show ?thesis
  proof (cases "price_of s p")
    case None
    with fresh show ?thesis by (simp add: purchase_new)
  next
    case (Some price)
    note price = this
    show ?thesis
    proof (cases "balance_of s u < price")
      case True
      with fresh price show ?thesis by (simp add: purchase_new)
    next
      case False
      let ?rec = "PurchaseRecord u p k price now1"
      show ?thesis
      proof (cases "insert_row ''shop_transactions'' ?rec (storage s)")
        case (Inl e)
        with fresh price False have "fst (purchase now1 u p (Some k) s) = StorageRefused e"
          by (simp add: purchase_new)
        with assms [of e] show ?thesis by blast
      next
        case (Inr db')
        let ?s1 = "s\<lparr>storage := db', balance_of := (balance_of s)(u := balance_of s u - price)\<rparr>"
        have first: "purchase now1 u p (Some k) s = (Purchased ?rec, ?s1)"
          using fresh price False Inr by (simp add: purchase_new)
        have "ledger ?s1 = ledger s @ [?rec]"
          by (rule ledger_after_insert [OF Inr])
        with fresh have "find (same_purchase u p k) (ledger ?s1) = Some ?rec"
          by (simp add: find_append_new same_purchase_PurchaseRecord)
        then have "purchase now2 u p (Some k) ?s1 = (Purchased ?rec, ?s1)"
          by (rule purchase_replay)
        with first show ?thesis by simp
      qed
    qed
  qed
qed

text \<open>
  Claim C1. For every user, product and idempotency key, in every state and at any two
  request times: when the first \<open>purchase\<close> was not refused by storage, so that it
  returned a ledger record or one of the failures \<open>InsufficientFunds\<close> and
  \<open>ProductNotFound\<close>, a second \<open>purchase\<close> with the same user, product and key returns
  that same result and changes nothing. A record already stored under the key is returned
  as it is, with no change of state. And when the first call made the purchase (no record
  was stored, and it returned one), then after both calls the ledger has grown by that one
  record, it is the only record under the key, and the balance has been charged the price
  once.
\<close>

theorem purchase_idempotent:
  "((\<forall>e. fst (purchase now1 u p (Some k) s) \<noteq> StorageRefused e) \<longrightarrow>
      purchase now2 u p (Some k) (snd (purchase now1 u p (Some k) s)) = purchase now1 u p (Some k) s)
   \<and> (\<forall>r. find (same_purchase u p k) (ledger s) = Some r \<longrightarrow>
         purchase now1 u p (Some k) s = (Purchased r, s))
   \<and> (\<forall>r. find (same_purchase u p k) (ledger s) = None
           \<and> fst (purchase now1 u p (Some k) s) = Purchased r \<longrightarrow>
         (\<exists>price. price_of s p = Some price \<and> r = PurchaseRecord u p k price now1
            \<and> ledger (snd (purchase now2 u p (Some k) (snd (purchase now1 u p (Some k) s)))) =
                ledger s @ [r]
            \<and> filter (same_purchase u p k)
                (ledger (snd (purchase now2 u p (Some k) (snd (purchase now1 u p (Some k) s))))) = [r]
            \<and> balance_of (snd (purchase now2 u p (Some k) (snd (purchase now1 u p (Some k) s)))) =
                (balance_of s)(u := balance_of s u - price)))"
proof (intro conjI allI impI)
  assume "\<forall>e. fst (purchase now1 u p (Some k) s) \<noteq> StorageRefused e"
  then show "purchase now2 u p (Some k) (snd (purchase now1 u p (Some k) s)) =
      purchase now1 u p (Some k) s"
    by (simp add: purchase_twice)
next
  fix r
  assume "find (same_purchase u p k) (ledger s) = Some r"
  then show "purchase now1 u p (Some k) s = (Purchased r, s)"
    by (rule purchase_replay)
next
  fix r
  assume a: "find (same_purchase u p k) (ledger s) = None
           \<and> fst (purchase now1 u p (Some k) s) = Purchased r"
  then have fresh: "find (same_purchase u p k) (ledger s) = None"
    and res: "fst (purchase now1 u p (Some k) s) = Purchased r"
    by simp_all
  from res fresh obtain price where price: "price_of s p = Some price"
    by (cases "price_of s p") (auto simp: purchase_new)
  from res fresh price have funds: "\<not> balance_of s u < price"
    by (auto simp: purchase_new split: if_splits)
  let ?rec = "PurchaseRecord u p k price now1"
  from res fresh price funds obtain db'
    where ins: "insert_row ''shop_transactions'' ?rec (storage s) = Inr db'"
    by (cases "insert_row ''shop_transactions'' ?rec (storage s)") (auto simp: purchase_new)
  let ?s1 = "s\<lparr>storage := db', balance_of := (balance_of s)(u := balance_of s u - price)\<rparr>"
  have first: "purchase now1 u p (Some k) s = (Purchased ?rec, ?s1)"
    using fresh price funds ins by (simp add: purchase_new)
  with res have r: "r = ?rec" by simp
  from res have "\<And>e. fst (purchase now1 u p (Some k) s) \<noteq> StorageRefused e"
    by simp
  then have "purchase now2 u p (Some k) (snd (purchase now1 u p (Some k) s)) =
      purchase now1 u p (Some k) s"
    by (rule purchase_twice)
  then have twice: "snd (purchase now2 u p (Some k) (snd (purchase now1 u p (Some k) s))) = ?s1"
    by (simp add: first)
  have led: "ledger ?s1 = ledger s @ [?rec]"
    by (rule ledger_after_insert [OF ins])
  have one: "filter (same_purchase u p k) (ledger ?s1) = [?rec]"
    using fresh by (simp add: led find_None_filter same_purchase_PurchaseRecord)
  show "\<exists>price. price_of s p = Some price \<and> r = PurchaseRecord u p k price now1
            \<and> ledger (snd (purchase now2 u p (Some k) (snd (purchase now1 u p (Some k) s)))) =
                ledger s @ [r]
            \<and> filter (same_purchase u p k)
                (ledger (snd (purchase now2 u p (Some k) (snd (purchase now1 u p (Some k) s))))) = [r]
            \<and> balance_of (snd (purchase now2 u p (Some k) (snd (purchase now1 u p (Some k) s)))) =
                (balance_of s)(u := balance_of s u - price)"
    using price r led one by (auto simp: twice)
qed

text \<open>
  User 1 holds 100 and buys the small gem pack (30) under key \<open>k1\<close> at time 10, then
  sends the same request at time 11: the answer is the record of time 10, the ledger holds
  one record under \<open>k1\<close>, and the balance is 70.
\<close>

theorem purchase_idempotent_witness:
  "find (same_purchase 1 ''gem_pack_small'' ''k1'') (ledger shop0) = None
   \<and> purchase 10 1 ''gem_pack_small'' (Some ''k1'') shop0 =
        (Purchased (PurchaseRecord 1 ''gem_pack_small'' ''k1'' 30 10),
         shop0\<lparr>storage := [(''shop_transactions'',
                    shop_after\<lparr>rows := rows shop_after @ [PurchaseRecord 1 ''gem_pack_small'' ''k1'' 30 10]\<rparr>),
                   (''game_stats'', stats_after)],
               balance_of := (balance_of shop0)(1 := 70)\<rparr>)
   \<and> purchase 11 1 ''gem_pack_small'' (Some ''k1'')
        (snd (purchase 10 1 ''gem_pack_small'' (Some ''k1'') shop0)) =
      purchase 10 1 ''gem_pack_small'' (Some ''k1'') shop0
   \<and> filter (same_purchase 1 ''gem_pack_small'' ''k1'')
        (ledger (snd (purchase 11 1 ''gem_pack_small'' (Some ''k1'')
           (snd (purchase 10 1 ''gem_pack_small'' (Some ''k1'') shop0))))) =
      [PurchaseRecord 1 ''gem_pack_small'' ''k1'' 30 10]"
proof -
  let ?rec = "PurchaseRecord 1 ''gem_pack_small'' ''k1'' 30 10"
  have fresh: "find (same_purchase 1 ''gem_pack_small'' ''k1'') (ledger shop0) = None"
    by (simp add: ledger_def shop0_def same_purchase_def migration_defs sample_defs)
  have first: "purchase 10 1 ''gem_pack_small'' (Some ''k1'') shop0 =
        (Purchased ?rec,
         shop0\<lparr>storage := [(''shop_transactions'', shop_after\<lparr>rows := rows shop_after @ [?rec]\<rparr>),
                   (''game_stats'', stats_after)],
               balance_of := (balance_of shop0)(1 := 70)\<rparr>)"
    by (simp add: purchase_def Let_def ledger_def shop0_def same_purchase_def PurchaseRecord_def
        migration_defs sample_defs)
  then have res: "fst (purchase 10 1 ''gem_pack_small'' (Some ''k1'') shop0) = Purchased ?rec"
    by simp
  note idem = purchase_idempotent [of 10 1 "''gem_pack_small''" "''k1''" shop0 11]
  from res have "\<forall>e. fst (purchase 10 1 ''gem_pack_small'' (Some ''k1'') shop0) \<noteq> StorageRefused e"
    by simp
  with idem have again: "purchase 11 1 ''gem_pack_small'' (Some ''k1'')
        (snd (purchase 10 1 ''gem_pack_small'' (Some ''k1'') shop0)) =
      purchase 10 1 ''gem_pack_small'' (Some ''k1'') shop0"
    by blast
  from idem fresh res have once: "filter (same_purchase 1 ''gem_pack_small'' ''k1'')
        (ledger (snd (purchase 11 1 ''gem_pack_small'' (Some ''k1'')
           (snd (purchase 10 1 ''gem_pack_small'' (Some ''k1'') shop0))))) = [?rec]"
    by blast
  from fresh first again once show ?thesis by blast
qed

section \<open>Properties of the game statistics\<close>

text \<open>The maximum computed by folding is the maximum of the values.\<close>

lemma maximum_Max: "xs \<noteq> [] \<Longrightarrow> maximum xs = Some (Max (set xs))"
proof (cases xs)
  case Nil
  assume "xs \<noteq> []"
  with Nil show ?thesis by simp
next
  case (Cons x ys)
  have "Max (set (x # ys)) = fold max ys x"
    by (rule Max.set_eq_fold)
  with Cons show ?thesis by (simp only: maximum.simps)
qed

lemma recompute_Some:
  assumes "ds \<noteq> []"
  shows "recompute ds =
     Some \<lparr>total_games_played = sum_list (map total ds),
           total_wins = sum_list (map wins ds),
           total_losses = sum_list (map losses ds),
           overall_max_win = Max (set (map max_win ds))\<rparr>"
  using assms by (simp add: recompute_def maximum_Max)

text \<open>\<open>getStats\<close> always has a response: there are four game types to take a maximum of.\<close>

lemma getStats_Some:
  "getStats now u st =
     Some \<lparr>success = True,
           aggregate =
             \<lparr>total_games_played = sum_list (map (\<lambda>g. total (detail_of st u g)) game_types),
              total_wins = sum_list (map (\<lambda>g. wins (detail_of st u g)) game_types),
              total_losses = sum_list (map (\<lambda>g. losses (detail_of st u g)) game_types),
              overall_max_win = Max (set (map (\<lambda>g. max_win (detail_of st u g)) game_types))\<rparr>,
           details = map (\<lambda>g. (g, detail_of st u g)) game_types,
           last_updated = now\<rparr>"
proof -
  have ne: "map (detail_of st u) game_types \<noteq> []"
    by (simp add: game_types_def)
  have snd: "map snd (map (\<lambda>g. (g, detail_of st u g)) game_types) = map (detail_of st u) game_types"
    by (simp add: comp_def)
  show ?thesis
    unfolding getStats_def Let_def snd recompute_Some [OF ne]
    by (simp add: comp_def)
qed

text \<open>
  Claim C5. For every user and every store of detail records, \<open>getStats\<close> answers
  successfully with details that list exactly the known game types crash, slot, gacha and
  rps, each once: a type the user has a record for with that record, and a type with no
  record with the zero-valued record \<open>{wins:0, losses:0, max_win:0, total:0}\<close>.
\<close>

theorem getStats_lists_every_game_type:
  "\<exists>r. getStats now u st = Some r \<and> success r
     \<and> map fst (details r) = [crash, slot, gacha, rps]
     \<and> (\<forall>g. map_of (details r) g = Some (case st (u, g) of None \<Rightarrow> zero_detail | Some d \<Rightarrow> d))
     \<and> (\<forall>g. st (u, g) = None \<longrightarrow>
           map_of (details r) g = Some \<lparr>wins = 0, losses = 0, max_win = 0, total = 0\<rparr>)"
proof -
  let ?ds = "map (\<lambda>g. (g, detail_of st u g)) game_types"
  have keys: "map fst ?ds = [crash, slot, gacha, rps]"
    by (simp add: game_types_def)
  have look: "\<And>g. map_of ?ds g = Some (case st (u, g) of None \<Rightarrow> zero_detail | Some d \<Rightarrow> d)"
  proof -
    fix g
    show "map_of ?ds g = Some (case st (u, g) of None \<Rightarrow> zero_detail | Some d \<Rightarrow> d)"
      by (cases g) (simp_all add: game_types_def detail_of_def)
  qed
  have zero: "\<And>g. st (u, g) = None \<Longrightarrow>
      map_of ?ds g = Some \<lparr>wins = 0, losses = 0, max_win = 0, total = 0\<rparr>"
    by (simp add: look zero_detail_def)
  from keys look zero show ?thesis
    by (simp add: getStats_Some)
qed

text \<open>A user with slot results only still gets zero entries for crash, gacha and rps.\<close>

theorem getStats_lists_every_game_type_witness:
  "resolve_all slot_only Map.empty (5, crash) = None
   \<and> resolve_all slot_only Map.empty (5, gacha) = None
   \<and> resolve_all slot_only Map.empty (5, rps) = None
   \<and> (\<exists>r. getStats 3 5 (resolve_all slot_only Map.empty) = Some r
        \<and> map fst (details r) = [crash, slot, gacha, rps]
        \<and> map_of (details r) crash = Some \<lparr>wins = 0, losses = 0, max_win = 0, total = 0\<rparr>
        \<and> map_of (details r) gacha = Some \<lparr>wins = 0, losses = 0, max_win = 0, total = 0\<rparr>
        \<and> map_of (details r) rps = Some \<lparr>wins = 0, losses = 0, max_win = 0, total = 0\<rparr>
        \<and> map_of (details r) slot = Some \<lparr>wins = 2, losses = 1, max_win = 250, total = 3\<rparr>)"
proof -
  let ?st = "resolve_all slot_only Map.empty"
  have none: "?st (5, crash) = None" "?st (5, gacha) = None" "?st (5, rps) = None"
    by (simp_all add: slot_only_def resolve_game_def detail_of_def zero_detail_def)
  have sl: "?st (5, slot) = Some \<lparr>wins = 2, losses = 1, max_win = 250, total = 3\<rparr>"
    by (simp add: slot_only_def resolve_game_def detail_of_def zero_detail_def)
  from getStats_lists_every_game_type [of 3 5 ?st] obtain r where
    r: "getStats 3 5 ?st = Some r" "map fst (details r) = [crash, slot, gacha, rps]"
    and look: "\<forall>g. map_of (details r) g = Some (case ?st (5, g) of None \<Rightarrow> zero_detail | Some d \<Rightarrow> d)"
    and zero: "\<forall>g. ?st (5, g) = None \<longrightarrow>
           map_of (details r) g = Some \<lparr>wins = 0, losses = 0, max_win = 0, total = 0\<rparr>"
    by (elim exE conjE)
  from zero none have z: "map_of (details r) crash = Some \<lparr>wins = 0, losses = 0, max_win = 0, total = 0\<rparr>"
    "map_of (details r) gacha = Some \<lparr>wins = 0, losses = 0, max_win = 0, total = 0\<rparr>"
    "map_of (details r) rps = Some \<lparr>wins = 0, losses = 0, max_win = 0, total = 0\<rparr>"
    by blast+
  from look sl have s: "map_of (details r) slot = Some \<lparr>wins = 2, losses = 1, max_win = 250, total = 3\<rparr>"
    by simp
  from none r z s show ?thesis by (intro conjI exI [of _ r])
qed

subsection \<open>Events and the invariant of the detail records\<close>

text \<open>
  \<open>total == wins + losses\<close> holds of every record a reader sees, once it holds before
  the events; each event adds one game and one win or one loss.
\<close>

lemma detail_of_resolve_game:
  "detail_of (resolve_game (v, h, oc) st) u g =
     (if v = u \<and> h = g then
        (case oc of
           Won a \<Rightarrow> (detail_of st u g)\<lparr>wins := wins (detail_of st u g) + 1,
                       max_win := max (max_win (detail_of st u g)) a,
                       total := total (detail_of st u g) + 1\<rparr>
         | Lost \<Rightarrow> (detail_of st u g)\<lparr>losses := losses (detail_of st u g) + 1,
                      total := total (detail_of st u g) + 1\<rparr>)
      else detail_of st u g)"
  by (cases oc) (auto simp: resolve_game_def detail_of_def Let_def)

lemma total_invariant_resolve_all:
  assumes "\<And>u g. total (detail_of st u g) = wins (detail_of st u g) + losses (detail_of st u g)"
  shows "total (detail_of (resolve_all evs st) u g) =
     wins (detail_of (resolve_all evs st) u g) + losses (detail_of (resolve_all evs st) u g)"
  using assms
proof (induction evs arbitrary: st)
  case Nil
  then show ?case by simp
next
  case (Cons ev evs)
  obtain v h oc where ev: "ev = (v, h, oc)" by (cases ev)
  have "\<And>u g. total (detail_of (resolve_game ev st) u g) =
      wins (detail_of (resolve_game ev st) u g) + losses (detail_of (resolve_game ev st) u g)"
    using Cons.prems by (cases oc) (simp_all add: ev detail_of_resolve_game)
  from Cons.IH [OF this] show ?case by simp
qed

text \<open>
  What a sequence of events adds to one user's record for one game type: a win per win
  event, a game per event.
\<close>

lemma wins_resolve_all:
  "wins (detail_of (resolve_all evs st) u g) =
     wins (detail_of st u g) +
     int (length (filter (\<lambda>(v, h, oc). v = u \<and> oc \<noteq> Lost \<and> h = g) evs))"
proof (induction evs arbitrary: st)
  case Nil
  show ?case by simp
next
  case (Cons ev evs)
  obtain v h oc where ev: "ev = (v, h, oc)" by (cases ev)
  show ?case
    by (cases oc) (simp_all add: ev Cons.IH detail_of_resolve_game)
qed

lemma total_resolve_all:
  "total (detail_of (resolve_all evs st) u g) =
     total (detail_of st u g) +
     int (length (filter (\<lambda>(v, h, oc). v = u \<and> h = g) evs))"
proof (induction evs arbitrary: st)
  case Nil
  show ?case by simp
next
  case (Cons ev evs)
  obtain v h oc where ev: "ev = (v, h, oc)" by (cases ev)
  show ?case
    by (cases oc) (simp_all add: ev Cons.IH detail_of_resolve_game)
qed

text \<open>Every event belongs to exactly one game type.\<close>

lemma count_by_game_type:
  "(\<Sum>g\<leftarrow>game_types. int (length (filter (\<lambda>(v, h, oc). P v oc \<and> h = g) evs))) =
     int (length (filter (\<lambda>(v, h, oc). P v oc) evs))"
proof (induction evs)
  case Nil
  show ?case by (simp add: game_types_def)
next
  case (Cons ev evs)
  obtain v h oc where ev: "ev = (v, h, oc)" by (cases ev)
  from Cons.IH show ?case
    by (cases h) (simp_all add: ev game_types_def)
qed

text \<open>
  Claim C3. For every user and every sequence of game-resolution events applied to the
  empty store, the response recomputed from the detail records has one detail per game
  type, and its aggregate satisfies: \<open>total_wins\<close> is the sum of the details' \<open>wins\<close>,
  \<open>total_games_played\<close> the sum of their \<open>total\<close>, \<open>overall_max_win\<close> the maximum of
  their \<open>max_win\<close>, and every detail has \<open>total == wins + losses\<close>. Moreover
  \<open>total_wins\<close> is the number of the user's winning events and \<open>total_games_played\<close>
  the number of the user's events.
\<close>

theorem aggregate_consistent_after_events:
  "\<exists>r. getStats now u (resolve_all evs Map.empty) = Some r
     \<and> map fst (details r) = game_types
     \<and> total_wins (aggregate r) = (\<Sum>(g, d)\<leftarrow>details r. wins d)
     \<and> total_games_played (aggregate r) = (\<Sum>(g, d)\<leftarrow>details r. total d)
     \<and> overall_max_win (aggregate r) = Max (set (map (\<lambda>(g, d). max_win d) (details r)))
     \<and> list_all (\<lambda>(g, d). total d = wins d + losses d) (details r)
     \<and> total_wins (aggregate r) = int (length (filter (\<lambda>(v, h, oc). v = u \<and> oc \<noteq> Lost) evs))
     \<and> total_games_played (aggregate r) = int (length (filter (\<lambda>(v, h, oc). v = u) evs))"
proof -
  let ?st = "resolve_all evs Map.empty"
  let ?ds = "map (\<lambda>g. (g, detail_of ?st u g)) game_types"
  have z: "\<And>g. detail_of Map.empty u g = zero_detail"
    by (simp add: detail_of_def)
  have keys: "map fst ?ds = game_types"
    by (simp add: comp_def)
  have w: "(\<Sum>g\<leftarrow>game_types. wins (detail_of ?st u g)) = (\<Sum>(g, d)\<leftarrow>?ds. wins d)"
    by (simp add: comp_def)
  have t: "(\<Sum>g\<leftarrow>game_types. total (detail_of ?st u g)) = (\<Sum>(g, d)\<leftarrow>?ds. total d)"
    by (simp add: comp_def)
  have m: "Max (set (map (\<lambda>g. max_win (detail_of ?st u g)) game_types)) =
      Max (set (map (\<lambda>(g, d). max_win d) ?ds))"
    by (simp add: comp_def)
  have base: "\<And>v g. total (detail_of Map.empty v g) =
      wins (detail_of Map.empty v g) + losses (detail_of Map.empty v g)"
    by (simp add: detail_of_def zero_detail_def)
  have "\<And>g. total (detail_of ?st u g) = wins (detail_of ?st u g) + losses (detail_of ?st u g)"
    by (rule total_invariant_resolve_all [OF base])
  then have inv: "list_all (\<lambda>(g, d). total d = wins d + losses d) ?ds"
    by (simp add: list_all_iff)
  have wc: "(\<Sum>g\<leftarrow>game_types. wins (detail_of ?st u g)) =
      int (length (filter (\<lambda>(v, h, oc). v = u \<and> oc \<noteq> Lost) evs))"
    using count_by_game_type [of "\<lambda>v oc. v = u \<and> oc \<noteq> Lost" evs]
    by (simp add: wins_resolve_all z zero_detail_def)
  have tc: "(\<Sum>g\<leftarrow>game_types. total (detail_of ?st u g)) =
      int (length (filter (\<lambda>(v, h, oc). v = u) evs))"
    using count_by_game_type [of "\<lambda>v oc. v = u" evs]
    by (simp add: total_resolve_all z zero_detail_def)
  let ?a = "\<lparr>total_games_played = \<Sum>g\<leftarrow>game_types. total (detail_of ?st u g),
              total_wins = \<Sum>g\<leftarrow>game_types. wins (detail_of ?st u g),
              total_losses = \<Sum>g\<leftarrow>game_types. losses (detail_of ?st u g),
              overall_max_win = Max (set (map (\<lambda>g. max_win (detail_of ?st u g)) game_types))\<rparr>"
  let ?r = "\<lparr>success = True, aggregate = ?a, details = ?ds, last_updated = now\<rparr>"
  have gs: "getStats now u ?st = Some ?r"
    by (rule getStats_Some)
  have d: "details ?r = ?ds" by simp
  have tw: "total_wins (aggregate ?r) = (\<Sum>g\<leftarrow>game_types. wins (detail_of ?st u g))" by simp
  have tg: "total_games_played (aggregate ?r) = (\<Sum>g\<leftarrow>game_types. total (detail_of ?st u g))"
    by simp
  have om: "overall_max_win (aggregate ?r) =
      Max (set (map (\<lambda>g. max_win (detail_of ?st u g)) game_types))"
    by simp
  have "map fst (details ?r) = game_types
     \<and> total_wins (aggregate ?r) = (\<Sum>(g, d)\<leftarrow>details ?r. wins d)
     \<and> total_games_played (aggregate ?r) = (\<Sum>(g, d)\<leftarrow>details ?r. total d)
     \<and> overall_max_win (aggregate ?r) = Max (set (map (\<lambda>(g, d). max_win d) (details ?r)))
     \<and> list_all (\<lambda>(g, d). total d = wins d + losses d) (details ?r)
     \<and> total_wins (aggregate ?r) = int (length (filter (\<lambda>(v, h, oc). v = u \<and> oc \<noteq> Lost) evs))
     \<and> total_games_played (aggregate ?r) = int (length (filter (\<lambda>(v, h, oc). v = u) evs))"
    unfolding d tw tg om using keys w t m inv wc tc by (intro conjI)
  with gs show ?thesis by blast
qed

text \<open>User 6 after two crash wins (90 and 20) and one lost round of rps.\<close>

theorem aggregate_consistent_after_events_witness:
  "\<exists>r. getStats 3 6 (resolve_all mixed_play Map.empty) = Some r
     \<and> total_wins (aggregate r) = 2
     \<and> total_games_played (aggregate r) = 3
     \<and> details r = [(crash, \<lparr>wins = 2, losses = 0, max_win = 90, total = 2\<rparr>),
                     (slot, \<lparr>wins = 0, losses = 0, max_win = 0, total = 0\<rparr>),
                     (gacha, \<lparr>wins = 0, losses = 0, max_win = 0, total = 0\<rparr>),
                     (rps, \<lparr>wins = 0, losses = 1, max_win = 0, total = 1\<rparr>)]
     \<and> overall_max_win (aggregate r) = 90"
proof -
  let ?st = "resolve_all mixed_play Map.empty"
  from aggregate_consistent_after_events [of 3 6 mixed_play] obtain r where
    r: "getStats 3 6 ?st = Some r"
    and w: "total_wins (aggregate r) =
      int (length (filter (\<lambda>(v, h, oc). v = 6 \<and> oc \<noteq> Lost) mixed_play))"
    and g: "total_games_played (aggregate r) = int (length (filter (\<lambda>(v, h, oc). v = 6) mixed_play))"
    and m: "overall_max_win (aggregate r) = Max (set (map (\<lambda>(g, d). max_win d) (details r)))"
    by (elim exE conjE)
  have st: "?st (6, crash) = Some \<lparr>wins = 2, losses = 0, max_win = 90, total = 2\<rparr>"
    "?st (6, slot) = None" "?st (6, gacha) = None"
    "?st (6, rps) = Some \<lparr>wins = 0, losses = 1, max_win = 0, total = 1\<rparr>"
    by (simp_all add: mixed_play_def resolve_game_def detail_of_def zero_detail_def)
  from r have d: "details r = [(crash, \<lparr>wins = 2, losses = 0, max_win = 90, total = 2\<rparr>),
                     (slot, \<lparr>wins = 0, losses = 0, max_win = 0, total = 0\<rparr>),
                     (gacha, \<lparr>wins = 0, losses = 0, max_win = 0, total = 0\<rparr>),
                     (rps, \<lparr>wins = 0, losses = 1, max_win = 0, total = 1\<rparr>)]"
    by (auto simp: getStats_Some game_types_def detail_of_def st zero_detail_def)
  from w have w2: "total_wins (aggregate r) = 2" by (simp add: mixed_play_def)
  from g have g2: "total_games_played (aggregate r) = 3" by (simp add: mixed_play_def)
  from m have m2: "overall_max_win (aggregate r) = 90" by (simp add: d)
  from r w2 g2 d m2 show ?thesis by (intro conjI exI [of _ r])
qed

end
